theory Spec2Isabelle
  imports Main
begin

section \<open>JavaScript strings, arrays and numbers\<close>

text \<open>
  A JavaScript string is a sequence of UTF-16 code units; \<open>length\<close>, \<open>substring\<close>,
  indexing and \<open>trim\<close> all count code units. A \<^typ>\<open>char\<close> stands for one code unit in the
  range 0..255, so that a \<^typ>\<open>string\<close> is a JavaScript string over that range. Array
  lengths and indices are integers; \<^typ>\<open>int\<close> is used wherever the source can reach a
  negative value.
\<close>

text \<open>The code units below 256 matched by \<open>\s\<close> and removed by \<open>trim()\<close>: tab, line feed,
  vertical tab, form feed, carriage return, space and no-break space.\<close>

definition isWhiteSpace :: "char \<Rightarrow> bool" where
  "isWhiteSpace c = ((of_char c :: nat) \<in> {9, 10, 11, 12, 13, 32, 160})"

definition trim :: "string \<Rightarrow> string" where
  "trim s = rev (dropWhile isWhiteSpace (rev (dropWhile isWhiteSpace s)))"

text \<open>\<open>s.substring(a, b)\<close>: both indices are clamped to \<open>0..length\<close> and swapped when
  out of order; \<open>s.substring(a)\<close> runs to the end.\<close>

definition substring :: "string \<Rightarrow> int \<Rightarrow> int \<Rightarrow> string" where
  "substring s a b =
     (let n = int (length s);
          a' = min (max a 0) n;
          b' = min (max b 0) n
      in take (nat (max a' b' - min a' b')) (drop (nat (min a' b')) s))"

definition substringFrom :: "string \<Rightarrow> int \<Rightarrow> string" where
  "substringFrom s a = drop (nat (min (max a 0) (int (length s)))) s"

text \<open>\<open>xs.slice(start, end)\<close>: a negative index counts from the end of the array.\<close>

definition slice :: "'a list \<Rightarrow> int \<Rightarrow> int \<Rightarrow> 'a list" where
  "slice xs start end =
     (let n = int (length xs);
          k = (if start < 0 then max (n + start) 0 else min start n);
          f = (if end < 0 then max (n + end) 0 else min end n)
      in take (nat (f - k)) (drop (nat k) xs))"

text \<open>\<open>parts.join(sep)\<close>.\<close>

fun join :: "string \<Rightarrow> string list \<Rightarrow> string" where
  "join sep [] = []"
| "join sep [x] = x"
| "join sep (x # y # ys) = x @ sep @ join sep (y # ys)"

text \<open>The decimal digits of a count, as a template literal prints it.\<close>

fun showNat :: "nat \<Rightarrow> string" where
  "showNat n =
     (if n < 10 then [''0123456789'' ! n]
      else showNat (n div 10) @ [''0123456789'' ! (n mod 10)])"

text \<open>\<open>toLowerCase()\<close> on code units below 256: the letters A-Z and the accented capitals
  0xC0-0xDE (without the multiplication sign 0xD7) move up by 32. Bit 5 is clear in each
  of these code units, so adding 32 sets that bit.\<close>

definition toLowerCaseUnit :: "char \<Rightarrow> char" where
  "toLowerCaseUnit c =
     (let n = (of_char c :: nat)
      in if (65 \<le> n \<and> n \<le> 90) \<or> (192 \<le> n \<and> n \<le> 222 \<and> n \<noteq> 215)
         then (case c of Char b0 b1 b2 b3 b4 b5 b6 b7 \<Rightarrow> Char b0 b1 b2 b3 b4 True b6 b7)
         else c)"

definition toLowerCase :: "string \<Rightarrow> string" where
  "toLowerCase s = map toLowerCaseUnit s"


section \<open>Collaborators outside the repository\<close>

text \<open>
  The regular expressions of \<open>stripInlineMarkdown\<close>, in source order. Matching and
  replacement are done by the JavaScript runtime (\<open>String.prototype.replace\<close>), which is a
  parameter of the model, as are the Markdown tokenizer of the \<open>marked\<close> package, the
  \<open>URL\<close> constructor and the error formatter \<open>handleNotionError\<close> of
  \<open>utils/error.js\<close>.
\<close>

datatype regex =
    ImagePattern          \<comment> \<open>image syntax, replaced by group 1\<close>
  | LinkPattern           \<comment> \<open>link syntax, replaced by group 1\<close>
  | BoldItalicPattern     \<comment> \<open>three stars or underscores, replaced by group 2\<close>
  | BoldPattern           \<comment> \<open>two stars or underscores, replaced by group 2\<close>
  | ItalicPattern         \<comment> \<open>one star or underscore, replaced by group 2\<close>
  | StrikethroughPattern  \<comment> \<open>two tildes, replaced by group 1\<close>
  | InlineCodePattern     \<comment> \<open>backticks, replaced by group 1\<close>
  | EscapePattern         \<comment> \<open>backslash before a markup character, replaced by group 1\<close>

text \<open>A token of the tokenizer: a JavaScript object of which the converter reads the
  fields below (\<open>text_field\<close> is the field \<open>text\<close>). A field that a token kind does not
  carry holds the empty string, the empty list, \<open>False\<close> or \<open>None\<close>; \<open>tokens\<close>, \<open>lang\<close>,
  \<open>checked\<close> and \<open>title\<close> are optional in the tokenizer's types.\<close>

datatype token = Token
  (type: string) (raw: string) (text_field: string) (depth: nat) (lang: "string option")
  (tokens: "token list option") (items: "token list") (ordered: bool)
  (task: bool) (checked: "bool option") (href: string) (title: "string option")

text \<open>The result of a tool call: the texts of its content items and the error flag.\<close>

record CallToolResult =
  content :: "string list"
  isError :: bool

record host =
  replace :: "regex \<Rightarrow> string \<Rightarrow> string"
  lex :: "string \<Rightarrow> token list"
  validURL :: "string \<Rightarrow> bool"
  handleNotionError :: "string \<Rightarrow> CallToolResult"


section \<open>richText.ts\<close>

text \<open>Source: \<open>src/src/utils/markdown/richText.ts\<close>.\<close>

definition MAX_RICH_TEXT_LENGTH :: int where
  "MAX_RICH_TEXT_LENGTH = 2000"

definition stripInlineMarkdown :: "host \<Rightarrow> string \<Rightarrow> string" where
  "stripInlineMarkdown h txt =
     (if txt = [] then []
      else (replace h EscapePattern \<circ> replace h InlineCodePattern
            \<circ> replace h StrikethroughPattern \<circ> replace h ItalicPattern
            \<circ> replace h BoldPattern \<circ> replace h BoldItalicPattern
            \<circ> replace h LinkPattern \<circ> replace h ImagePattern) txt)"

text \<open>The test of one code unit against the character class of white space and
  \<open>. , ; : ! ?\<close>. An index outside the string reads \<open>undefined\<close>, which does not match.\<close>

definition isBreakChar :: "char \<Rightarrow> bool" where
  "isBreakChar c = (isWhiteSpace c \<or> c \<in> set ''.,;:!?'')"

definition breakAt :: "string \<Rightarrow> int \<Rightarrow> bool" where
  "breakAt s i = (0 \<le> i \<and> i < int (length s) \<and> isBreakChar (s ! nat i))"

text \<open>The inner \<open>for\<close> loop of \<open>splitTextIntoChunks\<close>: \<open>i\<close> runs down from
  \<open>maxLength - 1\<close> to \<open>searchStart\<close> and stops at the first break character.\<close>

function scanBack :: "string \<Rightarrow> int \<Rightarrow> int \<Rightarrow> int \<Rightarrow> int" where
  "scanBack remaining searchStart splitIndex i =
     (if i \<ge> searchStart then
        (if breakAt remaining i then i + 1
         else scanBack remaining searchStart splitIndex (i - 1))
      else splitIndex)"
  by pat_completeness auto
termination
  by (relation "measure (\<lambda>(r, s, d, i). nat (i - s + 1))") auto

declare scanBack.simps [simp del]

text \<open>The \<open>while\<close> loop of \<open>splitTextIntoChunks\<close>. It need not end (a limit of zero cuts
  off empty chunks for ever), so not returning is the value \<open>None\<close>.\<close>

partial_function (option) splitLoop :: "int \<Rightarrow> string \<Rightarrow> string list \<Rightarrow> string list option" where
  "splitLoop maxLength remaining chunks =
     (if length remaining > 0 then
        (if int (length remaining) \<le> maxLength then Some (chunks @ [remaining])
         else (let splitIndex = scanBack remaining (max 0 (maxLength - 100)) maxLength (maxLength - 1)
               in splitLoop maxLength (substringFrom remaining splitIndex)
                    (chunks @ [substring remaining 0 splitIndex])))
      else Some chunks)"

declare splitLoop.simps [code]

definition splitTextIntoChunks :: "string \<Rightarrow> int \<Rightarrow> string list option" where
  "splitTextIntoChunks txt maxLength =
     (if int (length txt) \<le> maxLength then Some [txt] else splitLoop maxLength txt [])"

datatype NotionRichTextItem = RichText (text_content: string) (link: "string option")

text \<open>\<open>createPlainTextRichText\<close>; its argument is a string, so the \<open>null\<close> test does not
  apply. The call of \<open>splitTextIntoChunks\<close> uses the default limit, with which the loop
  always returns (lemma \<open>splitTextIntoChunks_default\<close> below).\<close>

definition createPlainTextRichText :: "host \<Rightarrow> string \<Rightarrow> NotionRichTextItem list" where
  "createPlainTextRichText h txt =
     (let plainText = stripInlineMarkdown h txt
      in if length plainText = 0 then [RichText [] None]
         else map (\<lambda>chunk. RichText chunk None)
                (the (splitTextIntoChunks plainText MAX_RICH_TEXT_LENGTH)))"


section \<open>blockCreators.ts\<close>

text \<open>Source: \<open>src/unnamed/part_004\<close>.\<close>

text \<open>
  The value stored in the \<open>language\<close> field of a code block. The alias table is an object
  literal, so a lookup also finds the properties every object inherits from
  \<open>Object.prototype\<close>; such a value is a function or an object, not a string.
\<close>

datatype jsvalue = Str string | Inherited string

datatype NotionBlock =
    Paragraph (rich_text: "NotionRichTextItem list")
  | Heading1 (rich_text: "NotionRichTextItem list")
  | Heading2 (rich_text: "NotionRichTextItem list")
  | Heading3 (rich_text: "NotionRichTextItem list")
  | BulletedListItem (rich_text: "NotionRichTextItem list") (children: "NotionBlock list option")
  | NumberedListItem (rich_text: "NotionRichTextItem list") (children: "NotionBlock list option")
  | Code (rich_text: "NotionRichTextItem list") (language: jsvalue)
  | Quote (rich_text: "NotionRichTextItem list")
  | Divider
  | ToDo (rich_text: "NotionRichTextItem list") (todo_checked: bool)
  | Image (url: string) (caption: "NotionRichTextItem list option")

text \<open>The \<open>type\<close> field of a block.\<close>

fun blockType :: "NotionBlock \<Rightarrow> string" where
  "blockType (Paragraph _) = ''paragraph''"
| "blockType (Heading1 _) = ''heading_1''"
| "blockType (Heading2 _) = ''heading_2''"
| "blockType (Heading3 _) = ''heading_3''"
| "blockType (BulletedListItem _ _) = ''bulleted_list_item''"
| "blockType (NumberedListItem _ _) = ''numbered_list_item''"
| "blockType (Code _ _) = ''code''"
| "blockType (Quote _) = ''quote''"
| "blockType Divider = ''divider''"
| "blockType (ToDo _ _) = ''to_do''"
| "blockType (Image _ _) = ''image''"

definition createParagraphBlock :: "host \<Rightarrow> string \<Rightarrow> NotionBlock" where
  "createParagraphBlock h txt = Paragraph (createPlainTextRichText h txt)"

definition createHeading1Block :: "host \<Rightarrow> string \<Rightarrow> NotionBlock" where
  "createHeading1Block h txt = Heading1 (createPlainTextRichText h txt)"

definition createHeading2Block :: "host \<Rightarrow> string \<Rightarrow> NotionBlock" where
  "createHeading2Block h txt = Heading2 (createPlainTextRichText h txt)"

definition createHeading3Block :: "host \<Rightarrow> string \<Rightarrow> NotionBlock" where
  "createHeading3Block h txt = Heading3 (createPlainTextRichText h txt)"

text \<open>The optional \<open>children\<close> argument is attached only when it is a non-empty array.\<close>

definition attachChildren :: "NotionBlock list option \<Rightarrow> NotionBlock list option" where
  "attachChildren cs = (case cs of Some (c # rest) \<Rightarrow> Some (c # rest) | _ \<Rightarrow> None)"

definition createBulletedListItemBlock ::
  "host \<Rightarrow> string \<Rightarrow> NotionBlock list option \<Rightarrow> NotionBlock" where
  "createBulletedListItemBlock h txt cs =
     BulletedListItem (createPlainTextRichText h txt) (attachChildren cs)"

definition createNumberedListItemBlock ::
  "host \<Rightarrow> string \<Rightarrow> NotionBlock list option \<Rightarrow> NotionBlock" where
  "createNumberedListItemBlock h txt cs =
     NumberedListItem (createPlainTextRichText h txt) (attachChildren cs)"

text \<open>The own properties of the alias table of \<open>createCodeBlock\<close>, and the property names
  that the table object inherits.\<close>

definition languageTable :: "(string \<times> string) list" where
  "languageTable =
     [(''js'', ''javascript''), (''ts'', ''typescript''), (''py'', ''python''),
      (''rb'', ''ruby''), (''sh'', ''shell''), (''bash'', ''shell''), (''zsh'', ''shell''),
      (''yml'', ''yaml''), (''md'', ''markdown''), ([], ''plain text'')]"

definition objectPrototypeKeys :: "string list" where
  "objectPrototypeKeys =
     [''constructor'', ''__defineGetter__'', ''__defineSetter__'', ''hasOwnProperty'',
      ''__lookupGetter__'', ''__lookupSetter__'', ''isPrototypeOf'',
      ''propertyIsEnumerable'', ''toString'', ''valueOf'', ''__proto__'',
      ''toLocaleString'']"

definition languageMap :: "string \<Rightarrow> jsvalue option" where
  "languageMap key =
     (case map_of languageTable key of
        Some v \<Rightarrow> Some (Str v)
      | None \<Rightarrow> if key \<in> set objectPrototypeKeys then Some (Inherited key) else None)"

fun truthy :: "jsvalue \<Rightarrow> bool" where
  "truthy (Str s) = (s \<noteq> [])"
| "truthy (Inherited k) = True"

definition createCodeBlock :: "string \<Rightarrow> string option \<Rightarrow> NotionBlock" where
  "createCodeBlock code lng =
     (let normalizedLanguage = (case lng of Some l \<Rightarrow> toLowerCase l | None \<Rightarrow> []);
          fallback = (if normalizedLanguage \<noteq> [] then Str normalizedLanguage
                      else Str ''plain text'');
          notionLanguage = (case languageMap normalizedLanguage of
                              Some v \<Rightarrow> if truthy v then v else fallback
                            | None \<Rightarrow> fallback)
      in Code [RichText code None] notionLanguage)"

definition createQuoteBlock :: "host \<Rightarrow> string \<Rightarrow> NotionBlock" where
  "createQuoteBlock h txt = Quote (createPlainTextRichText h txt)"

definition createDividerBlock :: NotionBlock where
  "createDividerBlock = Divider"

definition createToDoBlock :: "host \<Rightarrow> string \<Rightarrow> bool \<Rightarrow> NotionBlock" where
  "createToDoBlock h txt chk = ToDo (createPlainTextRichText h txt) chk"

text \<open>\<open>createImageBlock\<close>: when the \<open>URL\<close> constructor throws, the image degrades to a
  paragraph; a caption is attached when it is a non-empty string.\<close>

definition createImageBlock :: "host \<Rightarrow> string \<Rightarrow> string option \<Rightarrow> NotionBlock" where
  "createImageBlock h u cap =
     (let given = (case cap of Some c \<Rightarrow> c \<noteq> [] | None \<Rightarrow> False)
      in if \<not> validURL h u
         then createParagraphBlock h (''[Image: '' @ (if given then the cap else u) @ '']'')
         else Image u (if given then Some (createPlainTextRichText h (the cap)) else None))"


section \<open>markdownToBlocks.ts\<close>

text \<open>Source: \<open>src/unnamed/part_003\<close>.\<close>

definition MAX_NESTING_DEPTH :: nat where
  "MAX_NESTING_DEPTH = 3"

text \<open>\<open>a || b\<close> on strings: the first operand unless it is empty.\<close>

definition orElse :: "string \<Rightarrow> string \<Rightarrow> string" where
  "orElse a b = (if a \<noteq> [] then a else b)"

definition processHeading :: "host \<Rightarrow> token \<Rightarrow> NotionBlock" where
  "processHeading h tok =
     (let txt = orElse (text_field tok) []
      in if depth tok = 1 then createHeading1Block h txt
         else if depth tok = 2 then createHeading2Block h txt
         else createHeading3Block h txt)"

text \<open>The loop of \<open>processParagraph\<close> over the inline tokens, with the local variables
  \<open>textParts\<close> and \<open>blocks\<close>.\<close>

fun paragraphLoop ::
  "host \<Rightarrow> token list \<Rightarrow> string list \<Rightarrow> NotionBlock list \<Rightarrow> string list \<times> NotionBlock list" where
  "paragraphLoop h [] textParts blocks = (textParts, blocks)"
| "paragraphLoop h (inlineToken # rest) textParts blocks =
     (if type inlineToken = ''image'' then
        (let flushed = (if length textParts > 0
                        then blocks @ [createParagraphBlock h (concat textParts)] else blocks);
             cap = (if text_field inlineToken \<noteq> [] then Some (text_field inlineToken)
                    else case title inlineToken of
                           Some t \<Rightarrow> if t \<noteq> [] then Some t else None
                         | None \<Rightarrow> None)
         in paragraphLoop h rest []
              (flushed @ [createImageBlock h (href inlineToken) cap]))
      else paragraphLoop h rest
             (textParts @ [orElse (raw inlineToken) (orElse (text_field inlineToken) [])]) blocks)"

definition processParagraph :: "host \<Rightarrow> token \<Rightarrow> NotionBlock list" where
  "processParagraph h tok =
     (let blocks =
        (case tokens tok of
           Some inl \<Rightarrow>
             (let (textParts, blocks) = paragraphLoop h inl [] []
              in if length textParts > 0
                 then (let txt = trim (concat textParts)
                       in if txt \<noteq> [] then blocks @ [createParagraphBlock h txt] else blocks)
                 else blocks)
         | None \<Rightarrow>
             (if trim (text_field tok) \<noteq> []
              then [createParagraphBlock h (text_field tok)] else []))
      in if length blocks > 0 then blocks
         else [createParagraphBlock h (orElse (text_field tok) [])])"

definition processCodeBlock :: "token \<Rightarrow> NotionBlock" where
  "processCodeBlock tok = createCodeBlock (orElse (text_field tok) []) (lang tok)"

text \<open>Inside a block quote, a paragraph block that came out of \<open>processToken\<close> is turned
  into a quote of the content of its first text run.\<close>

definition requote :: "host \<Rightarrow> NotionBlock \<Rightarrow> NotionBlock" where
  "requote h b =
     (if blockType b = ''paragraph''
      then createQuoteBlock h
             (case rich_text b of [] \<Rightarrow> [] | r # _ \<Rightarrow> orElse (text_content r) [])
      else b)"

text \<open>The loop of \<open>processListItem\<close> over the sub-tokens of a list item, with the local
  variables \<open>textContent\<close> and \<open>nestedList\<close>.\<close>

fun scanItemTokens :: "token list \<Rightarrow> string \<Rightarrow> token option \<Rightarrow> string \<times> token option" where
  "scanItemTokens [] textContent nestedList = (textContent, nestedList)"
| "scanItemTokens (t # ts) textContent nestedList =
     (if type t = ''list'' then scanItemTokens ts textContent (Some t)
      else if type t = ''text'' \<or> type t = ''paragraph''
        then scanItemTokens ts (textContent @ orElse (text_field t) []) nestedList
      else scanItemTokens ts textContent nestedList)"

definition itemParts :: "token \<Rightarrow> string \<times> token option" where
  "itemParts item =
     (case tokens item of
        Some ts \<Rightarrow> scanItemTokens ts [] None
      | None \<Rightarrow> (orElse (text_field item) [], None))"

definition depthWarning :: "nat \<Rightarrow> string" where
  "depthWarning d =
     ''Nested list at depth '' @ showNat (d + 1) @ '' exceeds maximum depth of ''
       @ showNat MAX_NESTING_DEPTH @ ''. Flattening to siblings.''"

definition createListItemBlock ::
  "host \<Rightarrow> bool \<Rightarrow> string \<Rightarrow> NotionBlock list option \<Rightarrow> NotionBlock" where
  "createListItemBlock h ord txt cs =
     (if ord then createNumberedListItemBlock h txt cs
      else createBulletedListItemBlock h txt cs)"


text \<open>
  The token walk. The module-level variable \<open>conversionWarnings\<close> is threaded through
  every function as the last argument and returned with the result. The \<open>for\<close> loops of
  \<open>processBlockquote\<close> and \<open>processListItems\<close> are recursions over the token list.
\<close>

function processToken :: "host \<Rightarrow> token \<Rightarrow> string list \<Rightarrow> NotionBlock list \<times> string list"
  and blockquoteLoop :: "host \<Rightarrow> token list \<Rightarrow> string list \<Rightarrow> NotionBlock list \<times> string list"
  and processListItems ::
    "host \<Rightarrow> token list \<Rightarrow> bool \<Rightarrow> nat \<Rightarrow> string list \<Rightarrow> NotionBlock list \<times> string list"
  and processListItem ::
    "host \<Rightarrow> token \<Rightarrow> bool \<Rightarrow> nat \<Rightarrow> string list
       \<Rightarrow> (NotionBlock \<times> NotionBlock list) \<times> string list"
where
  "processToken h tok ws =
     (if type tok = ''heading'' then ([processHeading h tok], ws)
      else if type tok = ''paragraph'' then (processParagraph h tok, ws)
      else if type tok = ''code'' then ([processCodeBlock tok], ws)
      else if type tok = ''blockquote'' then
        (case tokens tok of
           Some inner \<Rightarrow> blockquoteLoop h inner ws
         | None \<Rightarrow> ([createQuoteBlock h (orElse (text_field tok) [])], ws))
      else if type tok = ''list'' then processListItems h (items tok) (ordered tok) 1 ws
      else if type tok = ''hr'' then ([createDividerBlock], ws)
      else if type tok = ''space'' then ([], ws)
      else if type tok = ''html'' then
        (if trim (text_field tok) \<noteq> []
         then ([createParagraphBlock h (trim (text_field tok))], ws)
         else ([], ws))
      else ([], ws @ [''Unknown token type: '' @ type tok]))"
| "blockquoteLoop h [] ws = ([], ws)"
| "blockquoteLoop h (innerToken # rest) ws =
     (if type innerToken = ''paragraph'' then
        (case blockquoteLoop h rest ws of
           (blocks, ws') \<Rightarrow>
             (createQuoteBlock h (orElse (text_field innerToken) []) # blocks, ws'))
      else
        (case processToken h innerToken ws of
           (processed, ws1) \<Rightarrow>
             (case blockquoteLoop h rest ws1 of
                (blocks, ws2) \<Rightarrow> (map (requote h) processed @ blocks, ws2))))"
| "processListItems h [] ord d ws = ([], ws)"
| "processListItems h (item # rest) ord d ws =
     (case processListItem h item ord d ws of
        ((block, flattenedItems), ws1) \<Rightarrow>
          (case processListItems h rest ord d ws1 of
             (blocks, ws2) \<Rightarrow> (block # flattenedItems @ blocks, ws2)))"
| "processListItem h item ord d ws =
     (if task item then
        ((createToDoBlock h (orElse (text_field item) [])
            (case checked item of Some c \<Rightarrow> c | None \<Rightarrow> False), []), ws)
      else
        (case itemParts item of
           (textContent, None) \<Rightarrow> ((createListItemBlock h ord textContent None, []), ws)
         | (textContent, Some nestedList) \<Rightarrow>
             (if d < MAX_NESTING_DEPTH then
                (case processListItems h (items nestedList) (ordered nestedList) (d + 1) ws of
                   (cs, ws') \<Rightarrow> ((createListItemBlock h ord textContent (Some cs), []), ws'))
              else
                (case processListItems h (items nestedList) (ordered nestedList) d
                        (ws @ [depthWarning d]) of
                   (flattenedItems, ws') \<Rightarrow>
                     ((createListItemBlock h ord textContent None, flattenedItems), ws')))))"
  by pat_completeness auto
termination
proof (relation "measure (\<lambda>x. case x of
            Inl (Inl (h, tok, ws)) \<Rightarrow> size tok
          | Inl (Inr (h, ts, ws)) \<Rightarrow> size_list size ts
          | Inr (Inl (h, ts, ord, d, ws)) \<Rightarrow> size_list size ts
          | Inr (Inr (h, item, ord, d, ws)) \<Rightarrow> size item)", goal_cases)
  case 1
  show ?case by simp
next
  case (2 h tok ws inner)
  then show ?case by (cases tok) simp
next
  case (3 h tok ws)
  then show ?case by (cases tok) simp
next
  case (4 h innerToken rest ws)
  then show ?case by simp
next
  case (5 h innerToken rest ws)
  then show ?case by simp
next
  case (6 h innerToken rest ws x y)
  then show ?case by simp
next
  case (7 h item rest ord d ws)
  then show ?case by simp
next
  case (8 h item rest ord d ws x xa y xb)
  then show ?case by simp
next
  case (9 h item ord d ws x y nestedList)
  have sub: "snd (scanItemTokens ts tc acc) = Some nl \<Longrightarrow> nl \<in> set ts \<or> acc = Some nl"
    for ts tc acc nl
    by (induction ts tc acc rule: scanItemTokens.induct) (auto split: if_splits)
  from 9 obtain ts where ts: "tokens item = Some ts" "nestedList \<in> set ts"
    using sub [of _ "[]" None nestedList]
    by (auto simp: itemParts_def split: option.splits) (metis snd_conv)
  have "size_list size (items nestedList) < size nestedList"
    by (cases nestedList) simp
  moreover have "size nestedList < Suc (size_list size ts)"
    using ts(2) by (simp add: less_Suc_eq_le size_list_estimation')
  moreover have "size_list size ts < size item"
    using ts(1) by (cases item) simp
  ultimately show ?case by simp
next
  case (10 h item ord d ws x y nestedList)
  have sub: "snd (scanItemTokens ts tc acc) = Some nl \<Longrightarrow> nl \<in> set ts \<or> acc = Some nl"
    for ts tc acc nl
    by (induction ts tc acc rule: scanItemTokens.induct) (auto split: if_splits)
  from 10 obtain ts where ts: "tokens item = Some ts" "nestedList \<in> set ts"
    using sub [of _ "[]" None nestedList]
    by (auto simp: itemParts_def split: option.splits) (metis snd_conv)
  have "size_list size (items nestedList) < size nestedList"
    by (cases nestedList) simp
  moreover have "size nestedList < Suc (size_list size ts)"
    using ts(2) by (simp add: less_Suc_eq_le size_list_estimation')
  moreover have "size_list size ts < size item"
    using ts(1) by (cases item) simp
  ultimately show ?case by simp
qed

text \<open>The loop of \<open>markdownToBlocks\<close> over the top-level tokens.\<close>

fun tokensLoop :: "host \<Rightarrow> token list \<Rightarrow> string list \<Rightarrow> NotionBlock list \<times> string list" where
  "tokensLoop h [] ws = ([], ws)"
| "tokensLoop h (tok # rest) ws =
     (case processToken h tok ws of
        (processedBlocks, ws1) \<Rightarrow>
          (case tokensLoop h rest ws1 of
             (blocks, ws2) \<Rightarrow> (processedBlocks @ blocks, ws2)))"

text \<open>\<open>markdownToBlocks\<close> takes the current value of \<open>conversionWarnings\<close> and returns
  the blocks with its new value; \<open>getConversionWarnings\<close> returns a copy of it.\<close>

definition markdownToBlocks ::
  "host \<Rightarrow> string \<Rightarrow> string list \<Rightarrow> NotionBlock list \<times> string list" where
  "markdownToBlocks h markdown conversionWarnings =
     (if markdown = [] \<or> trim markdown = [] then ([], conversionWarnings)
      else tokensLoop h (lex h markdown) [])"

definition getConversionWarnings :: "string list \<Rightarrow> string list" where
  "getConversionWarnings conversionWarnings = conversionWarnings"


section \<open>batchUtils.ts\<close>

text \<open>Source: the second module of \<open>src/src/utils/markdown/index.ts\<close>
  (\<open>chunkBlocks\<close>, \<open>appendBlocksInBatches\<close>, \<open>fetchAllChildBlockIds\<close>).\<close>

text \<open>
  The remote document service. Its state is of an arbitrary type \<open>'w\<close>; each of the three
  operations the code uses takes the state and returns either the thrown error (shown as
  text) or the response, with the next state. The model keeps a log of the calls made.
\<close>

record ListResponse =
  list_results :: "string option list"   \<comment> \<open>the \<open>id\<close> of each listed block, when it has one\<close>
  has_more :: bool
  next_cursor :: "string option"

record 'w NotionClient =
  blocks_children_append :: "string \<Rightarrow> NotionBlock list \<Rightarrow> 'w \<Rightarrow> (string + string) \<times> 'w"
  blocks_children_list :: "string \<Rightarrow> string option \<Rightarrow> 'w \<Rightarrow> (string + ListResponse) \<times> 'w"
  blocks_delete :: "string \<Rightarrow> 'w \<Rightarrow> (string + unit) \<times> 'w"

datatype api_call =
    AppendCall string "NotionBlock list"
  | ListCall string "string option"
  | DeleteCall string

record 'w state =
  remote :: 'w
  calls :: "api_call list"
  conversionWarnings :: "string list"

definition callAppend ::
  "'w NotionClient \<Rightarrow> string \<Rightarrow> NotionBlock list \<Rightarrow> 'w state \<Rightarrow> (string + string) \<times> 'w state" where
  "callAppend notion blockId chunk s =
     (case blocks_children_append notion blockId chunk (remote s) of
        (r, w) \<Rightarrow> (r, s\<lparr>remote := w, calls := calls s @ [AppendCall blockId chunk]\<rparr>))"

definition callList ::
  "'w NotionClient \<Rightarrow> string \<Rightarrow> string option \<Rightarrow> 'w state
     \<Rightarrow> (string + ListResponse) \<times> 'w state" where
  "callList notion blockId cursor s =
     (case blocks_children_list notion blockId cursor (remote s) of
        (r, w) \<Rightarrow> (r, s\<lparr>remote := w, calls := calls s @ [ListCall blockId cursor]\<rparr>))"

definition callDelete ::
  "'w NotionClient \<Rightarrow> string \<Rightarrow> 'w state \<Rightarrow> (string + unit) \<times> 'w state" where
  "callDelete notion blockId s =
     (case blocks_delete notion blockId (remote s) of
        (r, w) \<Rightarrow> (r, s\<lparr>remote := w, calls := calls s @ [DeleteCall blockId]\<rparr>))"

definition NOTION_BLOCK_LIMIT :: int where
  "NOTION_BLOCK_LIMIT = 100"

text \<open>The \<open>for\<close> loop of \<open>chunkBlocks\<close>; with a chunk size that is not positive it does not
  end.\<close>

partial_function (option) chunkLoop ::
  "'a list \<Rightarrow> int \<Rightarrow> int \<Rightarrow> 'a list list \<Rightarrow> 'a list list option" where
  "chunkLoop blocks chunkSize i chunks =
     (if i < int (length blocks)
      then chunkLoop blocks chunkSize (i + chunkSize) (chunks @ [slice blocks i (i + chunkSize)])
      else Some chunks)"

declare chunkLoop.simps [code]

definition chunkBlocks :: "'a list \<Rightarrow> int \<Rightarrow> 'a list list option" where
  "chunkBlocks blocks chunkSize =
     (if length blocks = 0 then Some [] else chunkLoop blocks chunkSize 0 [])"

record BatchAppendResult =
  success :: bool
  totalBlocks :: nat
  batchCount :: nat
  successfulBatches :: nat
  results :: "string list"
  errors :: "(nat \<times> string) list"

text \<open>The loop of \<open>appendBlocksInBatches\<close> over the chunks: \<open>i\<close> is the index of the
  chunk at the head of the list, and the triple holds the local variables \<open>results\<close>,
  \<open>errors\<close> and \<open>successfulBatches\<close>.\<close>

fun appendLoop ::
  "'w NotionClient \<Rightarrow> string \<Rightarrow> NotionBlock list list \<Rightarrow> nat
     \<Rightarrow> string list \<times> (nat \<times> string) list \<times> nat \<Rightarrow> 'w state
     \<Rightarrow> (string list \<times> (nat \<times> string) list \<times> nat) \<times> 'w state" where
  "appendLoop notion blockId [] i acc s = (acc, s)"
| "appendLoop notion blockId (chunk # rest) i (res, errs, ok) s =
     (case callAppend notion blockId chunk s of
        (Inr response, s') \<Rightarrow>
          appendLoop notion blockId rest (i + 1) (res @ [response], errs, ok + 1) s'
      | (Inl error, s') \<Rightarrow>
          appendLoop notion blockId rest (i + 1) (res, errs @ [(i, error)], ok) s')"

text \<open>\<open>appendBlocksInBatches\<close> calls \<open>chunkBlocks\<close> with the default chunk size, with
  which it always returns (lemma \<open>chunkBlocks_default\<close> below).\<close>

definition appendBlocksInBatches ::
  "'w NotionClient \<Rightarrow> string \<Rightarrow> NotionBlock list \<Rightarrow> 'w state \<Rightarrow> BatchAppendResult \<times> 'w state" where
  "appendBlocksInBatches notion blockId blocks s =
     (if length blocks = 0
      then (\<lparr>success = True, totalBlocks = 0, batchCount = 0, successfulBatches = 0,
              results = [], errors = []\<rparr>, s)
      else
        (let chunks = the (chunkBlocks blocks NOTION_BLOCK_LIMIT)
         in case appendLoop notion blockId chunks 0 ([], [], 0) s of
              ((res, errs, ok), s') \<Rightarrow>
                (\<lparr>success = (length errs = 0), totalBlocks = length blocks,
                  batchCount = length chunks, successfulBatches = ok,
                  results = res, errors = errs\<rparr>, s')))"

text \<open>The \<open>do ... while (cursor)\<close> loop of \<open>fetchAllChildBlockIds\<close>. It runs as long as the
  service answers with a non-empty cursor, so it need not end; a thrown error leaves it.\<close>

partial_function (option) fetchLoop ::
  "'w NotionClient \<Rightarrow> string \<Rightarrow> string option \<Rightarrow> string list \<Rightarrow> 'w state
     \<Rightarrow> ((string + string list) \<times> 'w state) option" where
  "fetchLoop notion blockId cursor childIds s =
     (case callList notion blockId cursor s of
        (Inl error, s') \<Rightarrow> Some (Inl error, s')
      | (Inr response, s') \<Rightarrow>
          (let childIds' = childIds @ List.map_filter id (list_results response);
               cursor' = (if has_more response then next_cursor response else None)
           in if cursor' \<noteq> None \<and> cursor' \<noteq> Some []
              then fetchLoop notion blockId cursor' childIds' s'
              else Some (Inr childIds', s')))"

declare fetchLoop.simps [code]

definition fetchAllChildBlockIds ::
  "'w NotionClient \<Rightarrow> string \<Rightarrow> 'w state \<Rightarrow> ((string + string list) \<times> 'w state) option" where
  "fetchAllChildBlockIds notion blockId s = fetchLoop notion blockId None [] s"



section \<open>rewritePage.ts\<close>

text \<open>Source: the second module of \<open>src/src/types/page.ts\<close> (\<open>rewritePage\<close>,
  \<open>deleteBlocksByIds\<close>).\<close>

record RewritePageParams =
  pageId :: string
  markdown :: string
  validateBeforeDelete :: "bool option"

text \<open>The loop of \<open>deleteBlocksByIds\<close>, with the local variables \<open>deletedCount\<close> and
  \<open>errors\<close>: a failed deletion is recorded and the loop goes on.\<close>

fun deleteLoop ::
  "'w NotionClient \<Rightarrow> string list \<Rightarrow> nat \<Rightarrow> string list \<Rightarrow> 'w state
     \<Rightarrow> (nat \<times> string list) \<times> 'w state" where
  "deleteLoop notion [] deletedCount errs s = ((deletedCount, errs), s)"
| "deleteLoop notion (blockId # rest) deletedCount errs s =
     (case callDelete notion blockId s of
        (Inr _, s') \<Rightarrow> deleteLoop notion rest (deletedCount + 1) errs s'
      | (Inl error, s') \<Rightarrow>
          deleteLoop notion rest deletedCount (errs @ [blockId @ '': '' @ error]) s')"

definition deleteBlocksByIds ::
  "'w NotionClient \<Rightarrow> string list \<Rightarrow> 'w state \<Rightarrow> (nat \<times> string list) \<times> 'w state" where
  "deleteBlocksByIds notion blockIds s = deleteLoop notion blockIds 0 [] s"

definition newline :: string where
  "newline = [CHR 0x0A]"

definition emptyConversionResult :: CallToolResult where
  "emptyConversionResult =
     \<lparr>content = [''Error: Markdown conversion resulted in 0 blocks. ''
                   @ ''Please provide valid Markdown content.''],
      isError = True\<rparr>"

definition appendFailureResult :: "string \<Rightarrow> BatchAppendResult \<Rightarrow> CallToolResult" where
  "appendFailureResult pid batchResult =
     \<lparr>content =
        [join newline
           [''Error: Failed to append new content to page '' @ pid,
            ''Original content has been preserved (no data lost).'',
            ''Successful batches: '' @ showNat (successfulBatches batchResult) @ ''/''
              @ showNat (batchCount batchResult),
            ''Errors: '' @ join ''; ''
               (map (\<lambda>(batchIndex, error). ''Batch '' @ showNat batchIndex @ '': '' @ error)
                  (errors batchResult)),
            ''Note: '' @ (if successfulBatches batchResult > 0
                          then ''Some new blocks were added but original content remains.''
                          else ''No new blocks were added.'')]],
      isError = True\<rparr>"

definition deletedLine :: "nat \<Rightarrow> string" where
  "deletedLine deletedCount = ''Deleted: '' @ showNat deletedCount @ '' existing block(s)''"

definition successResult ::
  "string \<Rightarrow> BatchAppendResult \<Rightarrow> nat \<Rightarrow> string list \<Rightarrow> string list \<Rightarrow> CallToolResult" where
  "successResult pid batchResult deletedCount warnings deleteErrors =
     \<lparr>content =
        [join newline
           ([''Page rewrite completed for '' @ pid,
             ''Added: '' @ showNat (totalBlocks batchResult) @ '' new block(s) in ''
               @ showNat (batchCount batchResult) @ '' batch(es)'',
             deletedLine deletedCount]
            @ (if length warnings > 0
               then [''Conversion warnings: '' @ join ''; '' warnings] else [])
            @ (if length deleteErrors > 0
               then [''Note: Some old blocks could not be deleted: ''
                       @ join ''; '' (take 3 deleteErrors)
                       @ (if length deleteErrors > 3
                          then '' (+'' @ showNat (length deleteErrors - 3) @ '' more)''
                          else [])]
               else []))],
      isError = False\<rparr>"

text \<open>
  \<open>rewritePage\<close>. The result is \<open>None\<close> when the handler does not return, which can only
  come from the listing loop. An error thrown by the listing is caught by the handler's
  \<open>try\<close> and passed to \<open>handleNotionError\<close>.
\<close>

definition rewritePage ::
  "host \<Rightarrow> 'w NotionClient \<Rightarrow> RewritePageParams \<Rightarrow> 'w state
     \<Rightarrow> (CallToolResult \<times> 'w state) option" where
  "rewritePage h notion params s =
     (let validate = (case validateBeforeDelete params of Some v \<Rightarrow> v | None \<Rightarrow> True)
      in case markdownToBlocks h (markdown params) (conversionWarnings s) of
           (blocks, ws) \<Rightarrow>
             (let s1 = s\<lparr>conversionWarnings := ws\<rparr>;
                  warnings = getConversionWarnings (conversionWarnings s1)
              in if length blocks = 0 then Some (emptyConversionResult, s1)
                 else
                   (case (if validate then fetchAllChildBlockIds notion (pageId params) s1
                          else Some (Inr [], s1)) of
                      None \<Rightarrow> None
                    | Some (Inl error, s2) \<Rightarrow> Some (handleNotionError h error, s2)
                    | Some (Inr existingBlockIds, s2) \<Rightarrow>
                        (case appendBlocksInBatches notion (pageId params) blocks s2 of
                           (batchResult, s3) \<Rightarrow>
                             if \<not> success batchResult
                             then Some (appendFailureResult (pageId params) batchResult, s3)
                             else
                               (case (if length existingBlockIds > 0
                                      then deleteBlocksByIds notion existingBlockIds s3
                                      else ((0, []), s3)) of
                                  ((deletedCount, deleteErrors), s4) \<Rightarrow>
                                    Some (successResult (pageId params) batchResult
                                            deletedCount warnings deleteErrors, s4))))))"


section \<open>The batch contract in the words of the specification\<close>

text \<open>
  The specification of the batch engine: the chunks are submitted one after the other, each
  of them whatever became of the earlier ones, and the outcome of a submission is either
  the error it raised or the response. \<open>submitAll\<close> is that sequence of outcomes;
  \<open>failedChunks\<close> lists the failures with their chunk index, \<open>responses\<close> the responses
  of the chunks that went through, and \<open>succeeded\<close> tells the two outcomes apart.
\<close>

fun submitAll ::
  "'w NotionClient \<Rightarrow> string \<Rightarrow> NotionBlock list list \<Rightarrow> 'w state
     \<Rightarrow> (string + string) list \<times> 'w state" where
  "submitAll notion blockId [] s = ([], s)"
| "submitAll notion blockId (chunk # rest) s =
     (case callAppend notion blockId chunk s of
        (outcome, s') \<Rightarrow>
          (case submitAll notion blockId rest s' of
             (outcomes, s'') \<Rightarrow> (outcome # outcomes, s'')))"

fun failedChunks :: "nat \<Rightarrow> (string + string) list \<Rightarrow> (nat \<times> string) list" where
  "failedChunks i [] = []"
| "failedChunks i (Inl error # outcomes) = (i, error) # failedChunks (Suc i) outcomes"
| "failedChunks i (Inr response # outcomes) = failedChunks (Suc i) outcomes"

fun responses :: "(string + string) list \<Rightarrow> string list" where
  "responses [] = []"
| "responses (Inl error # outcomes) = responses outcomes"
| "responses (Inr response # outcomes) = response # responses outcomes"

fun succeeded :: "string + string \<Rightarrow> bool" where
  "succeeded (Inl error) = False"
| "succeeded (Inr response) = True"

fun isDeleteCall :: "api_call \<Rightarrow> bool" where
  "isDeleteCall (DeleteCall _) = True"
| "isDeleteCall _ = False"

fun isAppendCall :: "api_call \<Rightarrow> bool" where
  "isAppendCall (AppendCall _ _) = True"
| "isAppendCall _ = False"

fun isListCall :: "api_call \<Rightarrow> bool" where
  "isListCall (ListCall _ _) = True"
| "isListCall _ = False"


section \<open>Example collaborators and inputs\<close>

text \<open>Tokens as the tokenizer builds them: a text token, a list item with its sub-tokens
  (the \<open>text\<close> of an item is its whole source text, nested lines included), a task item,
  a list, a heading and a paragraph.\<close>

definition textToken :: "string \<Rightarrow> token" where
  "textToken s = Token ''text'' s s 0 None None [] False False None [] None"

definition listItemToken :: "string \<Rightarrow> token list \<Rightarrow> token" where
  "listItemToken s ts = Token ''list_item'' s s 0 None (Some ts) [] False False None [] None"

definition taskItemToken :: "string \<Rightarrow> bool \<Rightarrow> token list \<Rightarrow> token" where
  "taskItemToken s c ts =
     Token ''list_item'' s s 0 None (Some ts) [] False True (Some c) [] None"

definition listToken :: "bool \<Rightarrow> token list \<Rightarrow> token" where
  "listToken ord its = Token ''list'' [] [] 0 None None its ord False None [] None"

definition headingToken :: "nat \<Rightarrow> string \<Rightarrow> token" where
  "headingToken d s = Token ''heading'' s s d None None [] False False None [] None"

definition paragraphToken :: "string \<Rightarrow> token list \<Rightarrow> token" where
  "paragraphToken s inl =
     Token ''paragraph'' s s 0 None (Some inl) [] False False None [] None"

text \<open>A bulleted list nested four levels deep, and its Markdown source.\<close>

definition level4Item :: token where
  "level4Item = listItemToken ''L4'' [textToken ''L4'']"

definition level3Item :: token where
  "level3Item =
     listItemToken (''L3'' @ newline @ ''- L4'') [textToken ''L3'', listToken False [level4Item]]"

definition level2Item :: token where
  "level2Item =
     listItemToken (''L2'' @ newline @ ''- L3'' @ newline @ ''  - L4'')
       [textToken ''L2'', listToken False [level3Item]]"

definition level1Item :: token where
  "level1Item =
     listItemToken (''L1'' @ newline @ ''- L2'' @ newline @ ''  - L3'' @ newline @ ''    - L4'')
       [textToken ''L1'', listToken False [level2Item]]"

definition deepList :: token where
  "deepList = listToken False [level1Item]"

definition deepMarkdown :: string where
  "deepMarkdown =
     ''- L1'' @ newline @ ''  - L2'' @ newline @ ''    - L3'' @ newline @ ''      - L4''"

text \<open>A list item that holds a bulleted list and then a numbered list, as the source
  lines \<open>L3\<close>, \<open>- A\<close>, \<open>1. B\<close> give it.\<close>

definition itemA :: token where
  "itemA = listItemToken ''A'' [textToken ''A'']"

definition itemB :: token where
  "itemB = listItemToken ''B'' [textToken ''B'']"

definition twoListsItem :: token where
  "twoListsItem =
     listItemToken (''L3'' @ newline @ ''- A'' @ newline @ ''1. B'')
       [textToken ''L3'', listToken False [itemA], listToken True [itemB]]"

text \<open>A task item with a nested list, as the source lines \<open>- [ ] Task\<close>, \<open>  - Sub\<close> give
  it, and the same item without the check box.\<close>

definition subItem :: token where
  "subItem = listItemToken ''Sub'' [textToken ''Sub'']"

definition taskWithNested :: token where
  "taskWithNested =
     taskItemToken (''Task'' @ newline @ ''- Sub'') False
       [textToken ''Task'', listToken False [subItem]]"

definition plainWithNested :: token where
  "plainWithNested =
     listItemToken (''Task'' @ newline @ ''- Sub'')
       [textToken ''Task'', listToken False [subItem]]"

text \<open>A paragraph whose only character is a no-break space, and a paragraph of two
  words.\<close>

definition nbspParagraph :: token where
  "nbspParagraph = paragraphToken [CHR 0xA0] [textToken [CHR 0xA0]]"

definition helloParagraph :: token where
  "helloParagraph = paragraphToken ''Hello world'' [textToken ''Hello world'']"

text \<open>An example host. Its texts hold no markup, so every replacement leaves them as they
  are; its tokenizer knows the two Markdown sources used here; it accepts no URL.\<close>

definition exampleLex :: "string \<Rightarrow> token list" where
  "exampleLex m =
     (if m = ''# Title'' then [headingToken 1 ''Title'']
      else if m = deepMarkdown then [deepList]
      else [])"

definition exampleHost :: host where
  "exampleHost =
     \<lparr>replace = (\<lambda>r s. s), lex = exampleLex, validURL = (\<lambda>u. False),
      handleNotionError = (\<lambda>error. \<lparr>content = [error], isError = True\<rparr>)\<rparr>"

text \<open>An example service holding the child ids of one page. Appending adds one child per
  block, or always fails when the flag is set; listing returns all children in one page;
  deleting removes a child.\<close>

definition storeClient :: "bool \<Rightarrow> string list NotionClient" where
  "storeClient failing =
     \<lparr>blocks_children_append =
        (\<lambda>blockId chunk w.
           if failing then (Inl ''append failed'', w)
           else (Inr ''ok'', w @ map (\<lambda>b. ''new'') chunk)),
      blocks_children_list =
        (\<lambda>blockId cursor w.
           (Inr \<lparr>list_results = map Some w, has_more = False, next_cursor = None\<rparr>, w)),
      blocks_delete =
        (\<lambda>blockId w.
           if blockId \<in> set w then (Inr (), remove1 blockId w)
           else (Inl ''not found'', w))\<rparr>"

text \<open>An example service that counts the append calls and rejects the first one.\<close>

definition flakyClient :: "nat NotionClient" where
  "flakyClient =
     \<lparr>blocks_children_append =
        (\<lambda>blockId chunk n. (if n = 0 then Inl ''rate limited'' else Inr ''ok'', Suc n)),
      blocks_children_list =
        (\<lambda>blockId cursor n.
           (Inr \<lparr>list_results = [], has_more = False, next_cursor = None\<rparr>, n)),
      blocks_delete = (\<lambda>blockId n. (Inr (), n))\<rparr>"

section \<open>Text chunking\<close>

lemma scanBack_bounds:
  "0 \<le> s \<Longrightarrow> 0 < d \<Longrightarrow> i < d \<Longrightarrow> 0 < scanBack r s d i \<and> scanBack r s d i \<le> d"
proof (induction r s d i rule: scanBack.induct)
  case (1 remaining searchStart splitIndex i)
  note unfold = scanBack.simps [of remaining searchStart splitIndex i]
  show ?case
  proof (cases "i \<ge> searchStart")
    case True
    note ge = this
    show ?thesis
    proof (cases "breakAt remaining i")
      case True
      with ge 1(2-) show ?thesis by (simp add: unfold)
    next
      case False
      with ge 1 show ?thesis by (simp add: unfold)
    qed
  next
    case False
    with 1(2-) show ?thesis by (simp add: unfold)
  qed
qed

lemma substring_take: "0 \<le> k \<Longrightarrow> substring s 0 k = take (nat k) s"
  by (auto simp: substring_def Let_def min_def max_def)

lemma substringFrom_drop: "0 \<le> k \<Longrightarrow> substringFrom s k = drop (nat k) s"
  by (auto simp: substringFrom_def min_def max_def)

lemma splitLoop_step:
  "remaining \<noteq> [] \<Longrightarrow> \<not> int (length remaining) \<le> maxLength \<Longrightarrow>
   k = scanBack remaining (max 0 (maxLength - 100)) maxLength (maxLength - 1) \<Longrightarrow>
   splitLoop maxLength remaining chunks
     = splitLoop maxLength (substringFrom remaining k) (chunks @ [substring remaining 0 k])"
  by (subst splitLoop.simps) (simp add: Let_def)

lemma splitLoop_total:
  assumes pos: "0 < maxLength"
  shows "\<exists>cs. splitLoop maxLength r acc = Some (acc @ cs) \<and> concat cs = r
            \<and> list_all (\<lambda>c. int (length c) \<le> maxLength) cs"
proof (induction "length r" arbitrary: r acc rule: less_induct)
  case less
  show ?case
  proof (cases "r = []")
    case True
    then show ?thesis by (subst splitLoop.simps) simp
  next
    case False
    note ne = this
    show ?thesis
    proof (cases "int (length r) \<le> maxLength")
      case True
      with ne show ?thesis by (subst splitLoop.simps) simp
    next
      case False
      define k where "k = scanBack r (max 0 (maxLength - 100)) maxLength (maxLength - 1)"
      have kb: "0 < k \<and> k \<le> maxLength"
        unfolding k_def using pos by (intro scanBack_bounds) auto
      have shorter: "length (drop (nat k) r) < length r"
        using kb ne by auto
      from less [OF shorter, of "acc @ [take (nat k) r]"]
      obtain cs where cs: "splitLoop maxLength (drop (nat k) r) (acc @ [take (nat k) r])
                              = Some ((acc @ [take (nat k) r]) @ cs)"
        "concat cs = drop (nat k) r" "list_all (\<lambda>c. int (length c) \<le> maxLength) cs"
        by blast
      have step: "splitLoop maxLength r acc
                    = splitLoop maxLength (drop (nat k) r) (acc @ [take (nat k) r])"
        using splitLoop_step [OF ne False k_def, of acc] kb
        by (simp add: substring_take substringFrom_drop)
      have len: "int (length (take (nat k) r)) \<le> maxLength" using kb by auto
      have "splitLoop maxLength r acc = Some (acc @ (take (nat k) r # cs))"
        using cs(1) step by simp
      moreover have "concat (take (nat k) r # cs) = r" using cs(2) by simp
      moreover have "list_all (\<lambda>c. int (length c) \<le> maxLength) (take (nat k) r # cs)"
        using cs(3) len by simp
      ultimately show ?thesis by blast
    qed
  qed
qed

lemma splitTextIntoChunks_default:
  "\<exists>chunks. splitTextIntoChunks t MAX_RICH_TEXT_LENGTH = Some chunks \<and> concat chunks = t"
proof (cases "int (length t) \<le> MAX_RICH_TEXT_LENGTH")
  case True
  then show ?thesis by (simp add: splitTextIntoChunks_def)
next
  case False
  have "0 < MAX_RICH_TEXT_LENGTH" by (simp add: MAX_RICH_TEXT_LENGTH_def)
  from splitLoop_total [OF this, of t "[]"] False show ?thesis
    by (auto simp: splitTextIntoChunks_def)
qed

text \<open>
  C3. For every string \<open>t\<close> and every positive limit \<open>maxLength\<close>, \<open>splitTextIntoChunks\<close>
  returns; the concatenation of the chunks it returns is \<open>t\<close> itself, every chunk has at
  most \<open>maxLength\<close> code units, and a text that fits the limit comes back as the single
  chunk \<open>[t]\<close>.
\<close>

theorem splitTextIntoChunks_partition:
  assumes "0 < maxLength"
  shows "\<exists>chunks. splitTextIntoChunks t maxLength = Some chunks
           \<and> concat chunks = t
           \<and> list_all (\<lambda>c. int (length c) \<le> maxLength) chunks
           \<and> (int (length t) \<le> maxLength \<longrightarrow> chunks = [t])"
proof (cases "int (length t) \<le> maxLength")
  case True
  then show ?thesis by (simp add: splitTextIntoChunks_def)
next
  case False
  from splitLoop_total [OF assms, of t "[]"] False show ?thesis
    by (auto simp: splitTextIntoChunks_def)
qed

theorem splitTextIntoChunks_partition_witness:
  "(0::int) < 7
   \<and> splitTextIntoChunks ''hello world, this is'' 7 = Some [''hello '', ''world, '', ''this is'']
   \<and> concat [''hello '', ''world, '', ''this is''] = ''hello world, this is''
   \<and> splitTextIntoChunks ''abc'' 7 = Some [''abc'']"
proof -
  have run: "splitTextIntoChunks ''hello world, this is'' 7
               = Some [''hello '', ''world, '', ''this is'']"
    by (simp add: splitTextIntoChunks_def splitLoop.simps scanBack.simps breakAt_def
          isBreakChar_def isWhiteSpace_def substring_def substringFrom_def Let_def)
  have pos: "(0::int) < 7" by simp
  from splitTextIntoChunks_partition [OF pos, of "''abc''"]
  have short: "splitTextIntoChunks ''abc'' 7 = Some [''abc'']" by auto
  from splitTextIntoChunks_partition [OF pos, of "''hello world, this is''"] run
  have "concat [''hello '', ''world, '', ''this is''] = ''hello world, this is''" by auto
  with run short show ?thesis by simp
qed

section \<open>Batch partition\<close>

lemma slice_window:
  assumes "0 \<le> i" "i < int (length xs)" "0 < k"
  shows "slice xs i (i + k) = take (nat k) (drop (nat i) xs)"
proof (cases "i + k \<le> int (length xs)")
  case True
  with assms show ?thesis by (simp add: slice_def Let_def min_def)
next
  case False
  with assms have "slice xs i (i + k) = take (nat (int (length xs) - i)) (drop (nat i) xs)"
    by (simp add: slice_def Let_def min_def)
  also have "\<dots> = drop (nat i) xs" using assms by (intro take_all) simp
  also have "\<dots> = take (nat k) (drop (nat i) xs)"
    using assms False by (intro take_all [symmetric]) simp
  finally show ?thesis .
qed

lemma chunkLoop_step:
  "i < int (length blocks) \<Longrightarrow>
   chunkLoop blocks k i chunks = chunkLoop blocks k (i + k) (chunks @ [slice blocks i (i + k)])"
  by (subst chunkLoop.simps) simp

lemma chunkLoop_stop:
  "\<not> i < int (length blocks) \<Longrightarrow> chunkLoop blocks k i chunks = Some chunks"
  by (subst chunkLoop.simps) simp

lemma chunk_count_step:
  fixes m k :: nat
  assumes "0 < k" "k < m"
  shows "(m - 1) div k = Suc ((m - k - 1) div k)"
proof -
  have "m - 1 = (m - k - 1) + k" using assms by simp
  then have "(m - 1) div k = (m - k - 1) div k + 1"
    using assms(1) by (metis div_add_self2 less_numeral_extra(3))
  then show ?thesis by simp
qed

text \<open>From index \<open>i\<close> on, the loop cuts the rest of the list into windows of \<open>k\<close>
  elements.\<close>

lemma chunkLoop_total:
  assumes k: "0 < k"
  shows "0 \<le> i \<Longrightarrow>
         \<exists>cs. chunkLoop blocks k i acc = Some (acc @ cs)
            \<and> concat cs = drop (nat i) blocks
            \<and> list_all (\<lambda>c. c \<noteq> [] \<and> int (length c) \<le> k) cs
            \<and> length cs = (if length blocks \<le> nat i then 0
                            else (length blocks - nat i - 1) div nat k + 1)"
proof (induction "length blocks - nat i" arbitrary: i acc rule: less_induct)
  case less
  show ?case
  proof (cases "i < int (length blocks)")
    case False
    with less.prems show ?thesis by (simp add: chunkLoop_stop)
  next
    case True
    define c where "c = take (nat k) (drop (nat i) blocks)"
    have c_slice: "slice blocks i (i + k) = c"
      unfolding c_def using less.prems True k by (rule slice_window)
    have c_ne: "c \<noteq> []" and c_len: "int (length c) \<le> k"
      using True less.prems k by (auto simp: c_def)
    have nat_sum: "nat (i + k) = nat i + nat k" using less.prems k by (simp add: nat_add_distrib)
    have smaller: "length blocks - nat (i + k) < length blocks - nat i"
      using True less.prems k by (simp add: nat_sum)
    have nonneg: "0 \<le> i + k" using less.prems k by simp
    have lt: "nat i < length blocks" using True less.prems by (simp add: nat_less_iff)
    from less.hyps [OF smaller nonneg, of "acc @ [c]"]
    obtain cs where cs:
      "chunkLoop blocks k (i + k) (acc @ [c]) = Some ((acc @ [c]) @ cs)"
      "concat cs = drop (nat (i + k)) blocks"
      "list_all (\<lambda>c. c \<noteq> [] \<and> int (length c) \<le> k) cs"
      "length cs = (if length blocks \<le> nat (i + k) then 0
                    else (length blocks - nat (i + k) - 1) div nat k + 1)"
      by blast
    have run: "chunkLoop blocks k i acc = Some (acc @ (c # cs))"
      using chunkLoop_step [OF True, of k acc] cs(1) by (simp add: c_slice)
    have cat: "concat (c # cs) = drop (nat i) blocks"
    proof -
      have "drop (nat (i + k)) blocks = drop (nat k) (drop (nat i) blocks)"
        by (simp add: nat_sum add.commute)
      then have "concat (c # cs) = take (nat k) (drop (nat i) blocks)
                                     @ drop (nat k) (drop (nat i) blocks)"
        using cs(2) by (simp only: c_def concat.simps)
      then show ?thesis by (simp only: append_take_drop_id)
    qed
    have bound: "list_all (\<lambda>c. c \<noteq> [] \<and> int (length c) \<le> k) (c # cs)"
      using cs(3) c_ne c_len by simp
    have count: "length (c # cs) = (if length blocks \<le> nat i then 0
                                    else (length blocks - nat i - 1) div nat k + 1)"
    proof (cases "length blocks \<le> nat (i + k)")
      case True
      then have "length blocks - nat i - 1 < nat k" using lt k
        by (simp add: nat_sum)
      then have "(length blocks - nat i - 1) div nat k = 0" by simp
      with True cs(4) lt show ?thesis by simp
    next
      case False
      then have "nat k < length blocks - nat i" by (simp add: nat_sum)
      from chunk_count_step [OF _ this] k
      have "(length blocks - nat i - 1) div nat k
              = Suc ((length blocks - nat i - nat k - 1) div nat k)" by simp
      moreover have "length blocks - nat (i + k) = length blocks - nat i - nat k"
        by (simp add: nat_sum)
      ultimately show ?thesis
        using False cs(4) lt by simp
    qed
    from run cat bound count show ?thesis by blast
  qed
qed

lemma chunkBlocks_total:
  assumes "0 < k"
  shows "\<exists>cs. chunkBlocks blocks k = Some cs
            \<and> concat cs = blocks
            \<and> list_all (\<lambda>c. c \<noteq> [] \<and> int (length c) \<le> k) cs
            \<and> length cs = (length blocks + nat k - 1) div nat k"
proof (cases "blocks = []")
  case True
  with assms show ?thesis by (simp add: chunkBlocks_def)
next
  case False
  from chunkLoop_total [OF assms, of 0 blocks "[]"]
  obtain cs where cs: "chunkLoop blocks k 0 [] = Some cs" "concat cs = blocks"
    "list_all (\<lambda>c. c \<noteq> [] \<and> int (length c) \<le> k) cs"
    "length cs = (length blocks - 1) div nat k + 1"
    using False by auto
  have "length blocks + nat k - 1 = (length blocks - 1) + nat k" using False by (cases blocks) auto
  then have "(length blocks + nat k - 1) div nat k = (length blocks - 1) div nat k + 1"
    using assms by (metis div_add_self2 less_numeral_extra(3) zero_less_nat_eq)
  with cs False show ?thesis by (auto simp: chunkBlocks_def)
qed

lemma chunkBlocks_default:
  "\<exists>cs. chunkBlocks blocks NOTION_BLOCK_LIMIT = Some cs \<and> concat cs = blocks
         \<and> list_all (\<lambda>c. c \<noteq> [] \<and> length c \<le> 100) cs
         \<and> length cs = (length blocks + 99) div 100"
proof -
  have "0 < NOTION_BLOCK_LIMIT" by (simp add: NOTION_BLOCK_LIMIT_def)
  from chunkBlocks_total [OF this, of blocks] show ?thesis
    by (auto simp: NOTION_BLOCK_LIMIT_def list_all_iff)
qed

section \<open>Batched append\<close>

lemma submitAll_length: "length (fst (submitAll notion blockId chunks s)) = length chunks"
  by (induction chunks arbitrary: s) (simp_all add: case_prod_beta)

lemma callAppend_calls:
  "calls (snd (callAppend notion blockId chunk s)) = calls s @ [AppendCall blockId chunk]"
  by (simp add: callAppend_def split: prod.splits)

lemma callAppend_warnings:
  "conversionWarnings (snd (callAppend notion blockId chunk s)) = conversionWarnings s"
  by (simp add: callAppend_def split: prod.splits)

lemma submitAll_calls:
  "calls (snd (submitAll notion blockId chunks s)) = calls s @ map (AppendCall blockId) chunks"
proof (induction chunks arbitrary: s)
  case Nil
  show ?case by simp
next
  case (Cons chunk rest)
  obtain outcome s' where step: "callAppend notion blockId chunk s = (outcome, s')"
    by (cases "callAppend notion blockId chunk s")
  have "calls s' = calls s @ [AppendCall blockId chunk]"
    using callAppend_calls [of notion blockId chunk s] step by simp
  with Cons [of s'] step show ?case by (simp add: case_prod_beta)
qed

lemma submitAll_warnings:
  "conversionWarnings (snd (submitAll notion blockId chunks s)) = conversionWarnings s"
proof (induction chunks arbitrary: s)
  case Nil
  show ?case by simp
next
  case (Cons chunk rest)
  obtain outcome s' where step: "callAppend notion blockId chunk s = (outcome, s')"
    by (cases "callAppend notion blockId chunk s")
  have "conversionWarnings s' = conversionWarnings s"
    using callAppend_warnings [of notion blockId chunk s] step by simp
  with Cons [of s'] step show ?case by (simp add: case_prod_beta)
qed

text \<open>The loop of the code computes the outcome sequence of the specification: an error
  is filed under the index of its chunk and the loop goes on to the next chunk.\<close>

lemma appendLoop_submitAll:
  "appendLoop notion blockId chunks i (res, errs, ok) s =
     ((res @ responses (fst (submitAll notion blockId chunks s)),
       errs @ failedChunks i (fst (submitAll notion blockId chunks s)),
       ok + length (responses (fst (submitAll notion blockId chunks s)))),
      snd (submitAll notion blockId chunks s))"
proof (induction chunks arbitrary: i res errs ok s)
  case Nil
  show ?case by simp
next
  case (Cons chunk rest)
  obtain outcome s' where step: "callAppend notion blockId chunk s = (outcome, s')"
    by (cases "callAppend notion blockId chunk s")
  show ?case
  proof (cases outcome)
    case (Inl error)
    with step Cons [of "i + 1" res "errs @ [(i, error)]" ok s'] show ?thesis
      by (simp add: case_prod_beta)
  next
    case (Inr response)
    with step Cons [of "i + 1" "res @ [response]" errs "ok + 1" s'] show ?thesis
      by (simp add: case_prod_beta)
  qed
qed

lemma failedChunks_empty:
  "(failedChunks i outcomes = []) = list_all succeeded outcomes"
  by (induction i outcomes rule: failedChunks.induct) simp_all

lemma appendBlocksInBatches_nonempty:
  assumes "blocks \<noteq> []" and "chunkBlocks blocks NOTION_BLOCK_LIMIT = Some chunks"
  shows "appendBlocksInBatches notion blockId blocks s =
           (\<lparr>success = list_all succeeded (fst (submitAll notion blockId chunks s)),
             totalBlocks = length blocks,
             batchCount = length chunks,
             successfulBatches = length (responses (fst (submitAll notion blockId chunks s))),
             results = responses (fst (submitAll notion blockId chunks s)),
             errors = failedChunks 0 (fst (submitAll notion blockId chunks s))\<rparr>,
            snd (submitAll notion blockId chunks s))"
  using assms
  by (simp add: appendBlocksInBatches_def appendLoop_submitAll failedChunks_empty)

text \<open>
  C2. For every container id and every block list, \<open>appendBlocksInBatches\<close> submits every
  chunk once and in order, whatever the outcome of the earlier chunks (the call log grows
  by one append call per chunk); \<open>success\<close> holds exactly when no submission failed; each
  failure is recorded in \<open>errors\<close> with the index of its chunk; and the empty block list
  gives the success result with all counts zero at once, without a call.
\<close>

theorem appendBlocksInBatches_outcomes:
  "appendBlocksInBatches notion blockId [] s =
     (\<lparr>success = True, totalBlocks = 0, batchCount = 0, successfulBatches = 0,
       results = [], errors = []\<rparr>, s)
   \<and> (blocks \<noteq> [] \<longrightarrow>
        (\<exists>chunks outcomes s'.
            chunkBlocks blocks NOTION_BLOCK_LIMIT = Some chunks
          \<and> submitAll notion blockId chunks s = (outcomes, s')
          \<and> length outcomes = length chunks
          \<and> calls s' = calls s @ map (AppendCall blockId) chunks
          \<and> appendBlocksInBatches notion blockId blocks s =
              (\<lparr>success = list_all succeeded outcomes,
                totalBlocks = length blocks,
                batchCount = length chunks,
                successfulBatches = length (responses outcomes),
                results = responses outcomes,
                errors = failedChunks 0 outcomes\<rparr>, s')))"
proof (intro conjI impI)
  show "appendBlocksInBatches notion blockId [] s =
     (\<lparr>success = True, totalBlocks = 0, batchCount = 0, successfulBatches = 0,
       results = [], errors = []\<rparr>, s)"
    by (simp add: appendBlocksInBatches_def)
next
  assume ne: "blocks \<noteq> []"
  from chunkBlocks_default [of blocks]
  obtain chunks where chunks: "chunkBlocks blocks NOTION_BLOCK_LIMIT = Some chunks" by blast
  obtain outcomes s' where run: "submitAll notion blockId chunks s = (outcomes, s')"
    by (cases "submitAll notion blockId chunks s")
  have "length outcomes = length chunks"
    using submitAll_length [of notion blockId chunks s] run by simp
  moreover have "calls s' = calls s @ map (AppendCall blockId) chunks"
    using submitAll_calls [of notion blockId chunks s] run by simp
  moreover note appendBlocksInBatches_nonempty [OF ne chunks, of notion blockId s]
  ultimately show "\<exists>chunks outcomes s'.
            chunkBlocks blocks NOTION_BLOCK_LIMIT = Some chunks
          \<and> submitAll notion blockId chunks s = (outcomes, s')
          \<and> length outcomes = length chunks
          \<and> calls s' = calls s @ map (AppendCall blockId) chunks
          \<and> appendBlocksInBatches notion blockId blocks s =
              (\<lparr>success = list_all succeeded outcomes,
                totalBlocks = length blocks,
                batchCount = length chunks,
                successfulBatches = length (responses outcomes),
                results = responses outcomes,
                errors = failedChunks 0 outcomes\<rparr>, s')"
    using chunks run by auto
qed

text \<open>
  C4. For every list of \<open>N > 0\<close> blocks, \<open>chunkBlocks\<close> with the chunk size 100 returns
  \<open>\<lceil>N / 100\<rceil>\<close> chunks, the chunk sizes add up to \<open>N\<close>, no chunk has more than 100 elements,
  the chunks concatenated in order are the original list, and \<open>appendBlocksInBatches\<close>
  reports the number of chunks as \<open>batchCount\<close>.
\<close>

theorem chunkBlocks_partition:
  assumes "blocks \<noteq> []"
  shows "\<exists>chunks. chunkBlocks blocks NOTION_BLOCK_LIMIT = Some chunks
           \<and> length chunks = (length blocks + 99) div 100
           \<and> sum_list (map length chunks) = length blocks
           \<and> list_all (\<lambda>c. length c \<le> 100) chunks
           \<and> concat chunks = blocks
           \<and> batchCount (fst (appendBlocksInBatches notion blockId blocks s)) = length chunks"
proof -
  from chunkBlocks_default [of blocks]
  obtain chunks where chunks: "chunkBlocks blocks NOTION_BLOCK_LIMIT = Some chunks"
    "concat chunks = blocks" "list_all (\<lambda>c. c \<noteq> [] \<and> length c \<le> 100) chunks"
    "length chunks = (length blocks + 99) div 100"
    by blast
  have "sum_list (map length chunks) = length (concat chunks)"
    by (simp add: length_concat)
  then have "sum_list (map length chunks) = length blocks" using chunks(2) by simp
  moreover have "list_all (\<lambda>c. length c \<le> 100) chunks"
    using chunks(3) by (simp add: list_all_iff)
  moreover have "batchCount (fst (appendBlocksInBatches notion blockId blocks s)) = length chunks"
    by (simp add: appendBlocksInBatches_nonempty [OF assms chunks(1)])
  ultimately show ?thesis using chunks by blast
qed

section \<open>Page rewrite\<close>

lemma callList_calls:
  "calls (snd (callList notion blockId cursor s)) = calls s @ [ListCall blockId cursor]"
  by (simp add: callList_def case_prod_beta)

lemma callDelete_calls:
  "calls (snd (callDelete notion blockId s)) = calls s @ [DeleteCall blockId]"
  by (simp add: callDelete_def case_prod_beta)

text \<open>When the listing loop returns, it has made listing calls only.\<close>

lemma fetchLoop_calls_aux:
  "fetchLoop notion blockId cursor childIds s = Some y \<Longrightarrow>
   \<exists>new. calls (snd y) = calls s @ new \<and> list_all isListCall new"
proof (induction rule: fetchLoop.raw_induct [rotated, consumes 1])
  case (1 fetch notion blockId cursor childIds s y)
  obtain outcome s1 where step: "callList notion blockId cursor s = (outcome, s1)"
    by (cases "callList notion blockId cursor s")
  have calls1: "calls s1 = calls s @ [ListCall blockId cursor]"
    using callList_calls [of notion blockId cursor s] step by simp
  show ?case
  proof (cases outcome)
    case (Inl error)
    with 1(2) step have "snd y = s1" by auto
    with calls1 show ?thesis by simp
  next
    case (Inr response)
    define cursor' where "cursor' = (if has_more response then next_cursor response else None)"
    show ?thesis
    proof (cases "cursor' \<noteq> None \<and> cursor' \<noteq> Some []")
      case True
      with 1(2) step Inr
      have "fetch notion blockId cursor'
              (childIds @ List.map_filter id (list_results response)) s1 = Some y"
        by (simp add: cursor'_def Let_def)
      from 1(1) [OF this] obtain new where
        "calls (snd y) = calls s1 @ new" "list_all isListCall new"
        by blast
      with calls1 show ?thesis by simp
    next
      case False
      with 1(2) step Inr have "snd y = s1"
        by (auto simp: cursor'_def Let_def split: if_splits)
      with calls1 show ?thesis by simp
    qed
  qed
qed

lemma fetchLoop_calls:
  assumes "fetchLoop notion blockId cursor childIds s = Some (r, s')"
  shows "\<exists>new. calls s' = calls s @ new \<and> list_all isListCall new"
  using fetchLoop_calls_aux [OF assms] by simp

lemma deleteLoop_calls:
  "calls (snd (deleteLoop notion blockIds n errs s)) = calls s @ map DeleteCall blockIds"
proof (induction blockIds arbitrary: n errs s)
  case Nil
  show ?case by simp
next
  case (Cons blockId rest)
  obtain outcome s1 where step: "callDelete notion blockId s = (outcome, s1)"
    by (cases "callDelete notion blockId s")
  have "calls s1 = calls s @ [DeleteCall blockId]"
    using callDelete_calls [of notion blockId s] step by simp
  with step Cons show ?case by (cases outcome) simp_all
qed

lemma appendBlocksInBatches_calls:
  "\<exists>chunks. calls (snd (appendBlocksInBatches notion blockId blocks s))
             = calls s @ map (AppendCall blockId) chunks"
proof (cases "blocks = []")
  case True
  then show ?thesis by (simp add: appendBlocksInBatches_def)
next
  case False
  from chunkBlocks_default [of blocks]
  obtain chunks where "chunkBlocks blocks NOTION_BLOCK_LIMIT = Some chunks" by blast
  from appendBlocksInBatches_nonempty [OF False this, of notion blockId s]
  show ?thesis by (auto simp: submitAll_calls)
qed

lemma filter_delete_list_calls: "list_all isListCall new \<Longrightarrow> filter isDeleteCall new = []"
proof (induction new)
  case Nil
  show ?case by simp
next
  case (Cons c new)
  then show ?case by (cases c) simp_all
qed

lemma filter_delete_append_calls: "filter isDeleteCall (map (AppendCall blockId) chunks) = []"
  by (induction chunks) simp_all

text \<open>
  C1. In every run of \<open>rewritePage\<close> that reaches the append step (the conversion gave at
  least one block, and the listing of the existing children, if asked for, returned the
  ids \<open>existingBlockIds\<close>), the append step makes append calls only. If
  \<open>appendBlocksInBatches\<close> reports \<open>success = false\<close>, the handler returns the append-failure
  result, which is an error result, in the very state the append step left: no call
  follows the append calls, the call log holds no more delete calls than before the
  handler ran, and the captured ids never reach the delete step. Only if it reports
  \<open>success = true\<close> does the handler go on to delete, and then the delete calls for the
  captured ids come after all the append calls.
\<close>

theorem rewritePage_deletes_only_after_append:
  assumes conv: "markdownToBlocks h (markdown params) (conversionWarnings s) = (blocks, ws)"
    and ne: "blocks \<noteq> []"
    and fetch: "(if validateBeforeDelete params = Some False
                 then Some (Inr [], s\<lparr>conversionWarnings := ws\<rparr>)
                 else fetchAllChildBlockIds notion (pageId params) (s\<lparr>conversionWarnings := ws\<rparr>))
                = Some (Inr existingBlockIds, s2)"
    and app: "appendBlocksInBatches notion (pageId params) blocks s2 = (batchResult, s3)"
  shows "(\<exists>chunks. calls s3 = calls s2 @ map (AppendCall (pageId params)) chunks)
         \<and> (\<not> success batchResult \<longrightarrow>
              rewritePage h notion params s
                = Some (appendFailureResult (pageId params) batchResult, s3)
              \<and> isError (appendFailureResult (pageId params) batchResult)
              \<and> filter isDeleteCall (calls s3) = filter isDeleteCall (calls s))
         \<and> (success batchResult \<longrightarrow>
              (\<exists>res s4. rewritePage h notion params s = Some (res, s4)
                 \<and> \<not> isError res
                 \<and> calls s4 = calls s3 @ map DeleteCall existingBlockIds))"
proof -
  have validate: "(case validateBeforeDelete params of Some v \<Rightarrow> v | None \<Rightarrow> True)
                    = (validateBeforeDelete params \<noteq> Some False)"
    by (cases "validateBeforeDelete params") auto
  have fetch': "(if (case validateBeforeDelete params of Some v \<Rightarrow> v | None \<Rightarrow> True)
                 then fetchAllChildBlockIds notion (pageId params) (s\<lparr>conversionWarnings := ws\<rparr>)
                 else Some (Inr [], s\<lparr>conversionWarnings := ws\<rparr>))
                = Some (Inr existingBlockIds, s2)"
    using fetch unfolding validate by (simp split: if_splits)
  from appendBlocksInBatches_calls [of notion "pageId params" blocks s2] app
  obtain chunks where appended: "calls s3 = calls s2 @ map (AppendCall (pageId params)) chunks"
    by auto
  have listed: "filter isDeleteCall (calls s2) = filter isDeleteCall (calls s)"
  proof (cases "validateBeforeDelete params = Some False")
    case True
    with fetch show ?thesis by auto
  next
    case False
    with fetch have "fetchLoop notion (pageId params) None [] (s\<lparr>conversionWarnings := ws\<rparr>)
                       = Some (Inr existingBlockIds, s2)"
      by (simp add: fetchAllChildBlockIds_def)
    from fetchLoop_calls [OF this] obtain new where
      "calls s2 = calls s @ new" "list_all isListCall new" by auto
    then show ?thesis by (simp add: filter_delete_list_calls)
  qed
  have failure: "rewritePage h notion params s
                   = Some (appendFailureResult (pageId params) batchResult, s3)
                 \<and> isError (appendFailureResult (pageId params) batchResult)
                 \<and> filter isDeleteCall (calls s3) = filter isDeleteCall (calls s)"
    if failed: "\<not> success batchResult"
  proof -
    have "rewritePage h notion params s
            = Some (appendFailureResult (pageId params) batchResult, s3)"
      unfolding rewritePage_def Let_def conv using ne fetch' app failed by simp
    moreover have "isError (appendFailureResult (pageId params) batchResult)"
      by (simp add: appendFailureResult_def)
    moreover have "filter isDeleteCall (calls s3) = filter isDeleteCall (calls s)"
      using appended listed by (simp add: filter_delete_append_calls)
    ultimately show ?thesis by blast
  qed
  have completion: "\<exists>res s4. rewritePage h notion params s = Some (res, s4)
                      \<and> \<not> isError res
                      \<and> calls s4 = calls s3 @ map DeleteCall existingBlockIds"
    if ok: "success batchResult"
  proof -
    define deletion where
      "deletion = (if length existingBlockIds > 0
                   then deleteBlocksByIds notion existingBlockIds s3 else ((0, []), s3))"
    have deleted: "calls (snd deletion) = calls s3 @ map DeleteCall existingBlockIds"
    proof (cases "length existingBlockIds > 0")
      case True
      then show ?thesis
        by (simp add: deletion_def deleteBlocksByIds_def deleteLoop_calls del: deleteLoop.simps)
    next
      case False
      then show ?thesis by (simp add: deletion_def)
    qed
    have "rewritePage h notion params s
            = Some (successResult (pageId params) batchResult (fst (fst deletion))
                      (getConversionWarnings ws) (snd (fst deletion)), snd deletion)"
      unfolding rewritePage_def Let_def conv using ne fetch' app ok
      by (simp add: deletion_def case_prod_beta)
    moreover have "\<not> isError (successResult (pageId params) batchResult (fst (fst deletion))
                      (getConversionWarnings ws) (snd (fst deletion)))"
      by (simp add: successResult_def)
    ultimately show ?thesis using deleted by blast
  qed
  from appended failure completion show ?thesis by blast
qed

text \<open>
  C10. With \<open>validateBeforeDelete\<close> set to false, \<open>rewritePage\<close> always returns, and all the
  calls it makes are append calls: the children are not listed and nothing is deleted.
  When the result is not an error it is the success summary with the deleted count 0 and
  no deletion errors, however the append went.
\<close>

theorem rewritePage_without_validation_only_appends:
  assumes "validateBeforeDelete params = Some False"
  shows "\<exists>res s' new.
           rewritePage h notion params s = Some (res, s')
         \<and> calls s' = calls s @ new \<and> list_all isAppendCall new
         \<and> filter isDeleteCall (calls s') = filter isDeleteCall (calls s)
         \<and> (\<not> isError res \<longrightarrow>
              (\<exists>batchResult warnings.
                 success batchResult
               \<and> res = successResult (pageId params) batchResult 0 warnings []))"
proof -
  obtain blocks ws where conv:
    "markdownToBlocks h (markdown params) (conversionWarnings s) = (blocks, ws)"
    by (cases "markdownToBlocks h (markdown params) (conversionWarnings s)")
  define s1 where "s1 = s\<lparr>conversionWarnings := ws\<rparr>"
  show ?thesis
  proof (cases "blocks = []")
    case True
    then have "rewritePage h notion params s = Some (emptyConversionResult, s1)"
      unfolding rewritePage_def Let_def conv s1_def by simp
    moreover have "calls s1 = calls s @ []" by (simp add: s1_def)
    moreover have "isError emptyConversionResult" by (simp add: emptyConversionResult_def)
    ultimately show ?thesis by (intro exI [of _ emptyConversionResult] exI [of _ s1] exI [of _ "[]"]) simp
  next
    case False
    obtain batchResult s3 where app:
      "appendBlocksInBatches notion (pageId params) blocks s1 = (batchResult, s3)"
      by (cases "appendBlocksInBatches notion (pageId params) blocks s1")
    from appendBlocksInBatches_calls [of notion "pageId params" blocks s1] app
    obtain chunks where appended: "calls s3 = calls s @ map (AppendCall (pageId params)) chunks"
      by (auto simp: s1_def)
    have only: "list_all isAppendCall (map (AppendCall (pageId params)) chunks)"
      by (induction chunks) simp_all
    have nodel: "filter isDeleteCall (calls s3) = filter isDeleteCall (calls s)"
      using appended by (simp add: filter_delete_append_calls)
    show ?thesis
    proof (cases "success batchResult")
      case True
      have "rewritePage h notion params s =
              Some (successResult (pageId params) batchResult 0
                      (getConversionWarnings ws) [], s3)"
        unfolding rewritePage_def Let_def conv using False assms app True
        by (simp add: s1_def)
      with appended only nodel True show ?thesis by blast
    next
      case failedAppend: False
      have "rewritePage h notion params s
              = Some (appendFailureResult (pageId params) batchResult, s3)"
        unfolding rewritePage_def Let_def conv using False assms app failedAppend
        by (simp add: s1_def)
      moreover have "isError (appendFailureResult (pageId params) batchResult)"
        by (simp add: appendFailureResult_def)
      ultimately show ?thesis using appended only nodel by blast
    qed
  qed
qed

section \<open>List items\<close>

text \<open>The scan of the sub-tokens keeps the last sub-token of type \<open>list\<close>.\<close>

lemma scanItemTokens_nested:
  "snd (scanItemTokens ts textContent nestedList) =
     (case filter (\<lambda>t. type t = ''list'') ts of
        [] \<Rightarrow> nestedList
      | l # ls \<Rightarrow> Some (last (l # ls)))"
proof (induction ts arbitrary: textContent nestedList)
  case Nil
  show ?case by simp
next
  case (Cons t ts)
  show ?case
  proof (cases "type t = ''list''")
    case True
    then show ?thesis using Cons [of textContent "Some t"]
      by (simp split: list.splits)
  next
    case False
    then show ?thesis using Cons by simp
  qed
qed

lemma itemParts_nested:
  assumes "tokens item = Some ts" and "filter (\<lambda>t. type t = ''list'') ts = l # ls"
  shows "itemParts item = (fst (itemParts item), Some (last (l # ls)))"
proof -
  have "snd (itemParts item) = Some (last (l # ls))"
    using assms scanItemTokens_nested [of ts "[]" None] by (simp add: itemParts_def)
  then show ?thesis by (metis prod.collapse)
qed

lemma processListItems_Cons:
  "processListItems h (item # rest) ord d ws =
     (fst (fst (processListItem h item ord d ws))
        # snd (fst (processListItem h item ord d ws))
        @ fst (processListItems h rest ord d (snd (processListItem h item ord d ws))),
      snd (processListItems h rest ord d (snd (processListItem h item ord d ws))))"
  by (simp add: case_prod_beta)

lemma processListItem_task:
  "task item \<Longrightarrow>
   processListItem h item ord d ws =
     ((createToDoBlock h (text_field item) (checked item = Some True), []), ws)"
  by (cases "checked item") (simp_all add: orElse_def)

lemma processListItem_plain:
  "\<not> task item \<Longrightarrow> itemParts item = (textContent, None) \<Longrightarrow>
   processListItem h item ord d ws = ((createListItemBlock h ord textContent None, []), ws)"
  by simp

lemma processListItem_nest:
  "\<not> task item \<Longrightarrow> itemParts item = (textContent, Some nestedList) \<Longrightarrow>
   d < MAX_NESTING_DEPTH \<Longrightarrow>
   processListItem h item ord d ws =
     ((createListItemBlock h ord textContent
         (Some (fst (processListItems h (items nestedList) (ordered nestedList) (d + 1) ws))),
       []),
      snd (processListItems h (items nestedList) (ordered nestedList) (d + 1) ws))"
  by (simp add: case_prod_beta)

lemma processListItem_flatten:
  "\<not> task item \<Longrightarrow> itemParts item = (textContent, Some nestedList) \<Longrightarrow>
   \<not> d < MAX_NESTING_DEPTH \<Longrightarrow>
   processListItem h item ord d ws =
     ((createListItemBlock h ord textContent None,
       fst (processListItems h (items nestedList) (ordered nestedList) d
              (ws @ [depthWarning d]))),
      snd (processListItems h (items nestedList) (ordered nestedList) d
             (ws @ [depthWarning d])))"
  by (simp add: case_prod_beta)

declare processListItem.simps [simp del]
declare processListItems.simps(2) [simp del]

text \<open>The walk over list items only ever appends to the warnings, and the blocks it
  builds do not depend on the warnings it starts from.\<close>

lemma processListItems_writer:
  "\<forall>w. processListItems h its ord d w =
         (fst (processListItems h its ord d []), w @ snd (processListItems h its ord d []))"
proof (rule processToken_blockquoteLoop_processListItems_processListItem.induct(3)
    [where P = "\<lambda>h tok ws. True" and Q = "\<lambda>h ts ws. True"
       and R = "\<lambda>h its ord d ws. \<forall>w. processListItems h its ord d w =
         (fst (processListItems h its ord d []), w @ snd (processListItems h its ord d []))"
       and S = "\<lambda>h item ord d ws. \<forall>w. processListItem h item ord d w =
         (fst (processListItem h item ord d []), w @ snd (processListItem h item ord d []))"],
    goal_cases)
  case 1 show ?case by simp
next
  case 2 show ?case by simp
next
  case 3 show ?case by simp
next
  case (4 h ord d ws) show ?case by simp
next
  case (5 h item rest ord d ws)
  have item: "processListItem h item ord d w =
      (fst (processListItem h item ord d []), w @ snd (processListItem h item ord d []))" for w
    using 5(1) by blast
  have rest: "processListItems h rest ord d w =
      (fst (processListItems h rest ord d []), w @ snd (processListItems h rest ord d []))" for w
    using 5(2) [OF prod.collapse prod.collapse] by blast
  define b0 where "b0 = fst (processListItem h item ord d [])"
  define n0 where "n0 = snd (processListItem h item ord d [])"
  define bs0 where "bs0 = fst (processListItems h rest ord d [])"
  define m0 where "m0 = snd (processListItems h rest ord d [])"
  have item': "processListItem h item ord d w = (b0, w @ n0)" for w
    using item [of w] by (simp add: b0_def n0_def)
  have rest': "processListItems h rest ord d w = (bs0, w @ m0)" for w
    using rest [of w] by (simp add: bs0_def m0_def)
  have run: "processListItems h (item # rest) ord d w
               = (fst b0 # snd b0 @ bs0, w @ n0 @ m0)" for w
    by (simp add: processListItems_Cons item' rest')
  show ?case
  proof
    fix w
    show "processListItems h (item # rest) ord d w =
      (fst (processListItems h (item # rest) ord d []),
       w @ snd (processListItems h (item # rest) ord d []))"
      by (simp add: run [of w] run [of "[]"])
  qed
next
  case (6 h item ord d ws)
  show ?case
  proof (cases "task item")
    case True
    then show ?thesis by (simp add: processListItem_task)
  next
    case False
    note plain = this
    obtain textContent nestedList where parts: "itemParts item = (textContent, nestedList)"
      by (cases "itemParts item")
    show ?thesis
    proof (cases nestedList)
      case None
      with plain parts show ?thesis by (simp add: processListItem_plain)
    next
      case (Some nl)
      show ?thesis
      proof (cases "d < MAX_NESTING_DEPTH")
        case True
        have sub: "processListItems h (items nl) (ordered nl) (d + 1) w =
          (fst (processListItems h (items nl) (ordered nl) (d + 1) []),
           w @ snd (processListItems h (items nl) (ordered nl) (d + 1) []))" for w
          using 6(1) [OF plain parts [symmetric] Some True] by blast
        show ?thesis
        proof
          fix w
          show "processListItem h item ord d w =
            (fst (processListItem h item ord d []), w @ snd (processListItem h item ord d []))"
            using plain parts Some True sub [of w]
            by (simp add: processListItem_nest)
        qed
      next
        case False
        have sub: "processListItems h (items nl) (ordered nl) d w =
          (fst (processListItems h (items nl) (ordered nl) d []),
           w @ snd (processListItems h (items nl) (ordered nl) d []))" for w
          using 6(2) [OF plain parts [symmetric] Some False] by blast
        show ?thesis
        proof
          fix w
          show "processListItem h item ord d w =
            (fst (processListItem h item ord d []), w @ snd (processListItem h item ord d []))"
            using plain parts Some False sub [of "w @ [depthWarning d]"] sub [of "[depthWarning d]"]
            by (simp add: processListItem_flatten)
        qed
      qed
    qed
  qed
qed

lemma processListItems_blocks:
  "fst (processListItems h its ord d w) = fst (processListItems h its ord d [])"
  using processListItems_writer [of h its ord d] by (metis fst_conv)

lemma processListItems_warnings:
  "snd (processListItems h its ord d w) = w @ snd (processListItems h its ord d [])"
  using processListItems_writer [of h its ord d] by (metis snd_conv)

lemma processListItem_block:
  "fst (fst (processListItem h item ord d w)) = fst (fst (processListItem h item ord d []))"
proof -
  have "fst (processListItems h [item] ord d w) = fst (processListItems h [item] ord d [])"
    by (rule processListItems_blocks)
  then show ?thesis by (simp add: processListItems_Cons)
qed

text \<open>Every item of a list yields its own block in the output of \<open>processListItems\<close>.\<close>

lemma processListItems_item_block:
  "item \<in> set its \<Longrightarrow>
   fst (fst (processListItem h item ord d [])) \<in> set (fst (processListItems h its ord d w))"
proof (induction its arbitrary: w)
  case Nil
  then show ?case by simp
next
  case (Cons i its)
  show ?case
  proof (cases "item = i")
    case True
    then show ?thesis
      using processListItem_block [of h i ord d w] by (simp add: processListItems_Cons)
  next
    case False
    with Cons.prems have "item \<in> set its" by simp
    from Cons.IH [OF this] show ?thesis by (simp add: processListItems_Cons)
  qed
qed

section \<open>Evaluating the examples\<close>

lemma createPlainTextRichText_example:
  "txt \<noteq> [] \<Longrightarrow> int (length txt) \<le> 2000 \<Longrightarrow>
   createPlainTextRichText exampleHost txt = [RichText txt None]"
  by (simp add: createPlainTextRichText_def stripInlineMarkdown_def exampleHost_def
        splitTextIntoChunks_def MAX_RICH_TEXT_LENGTH_def)

lemmas token_examples =
  textToken_def listItemToken_def taskItemToken_def listToken_def headingToken_def
  paragraphToken_def level4Item_def level3Item_def level2Item_def level1Item_def
  deepList_def itemA_def itemB_def twoListsItem_def subItem_def taskWithNested_def
  plainWithNested_def nbspParagraph_def helloParagraph_def newline_def

lemmas block_creators =
  createParagraphBlock_def createHeading1Block_def createHeading2Block_def
  createHeading3Block_def createBulletedListItemBlock_def createNumberedListItemBlock_def
  createListItemBlock_def createToDoBlock_def createQuoteBlock_def attachChildren_def
  createPlainTextRichText_example

lemmas list_walk =
  processListItem.simps processListItems.simps itemParts_def orElse_def depthWarning_def
  MAX_NESTING_DEPTH_def

lemma deepList_blocks:
  "processToken exampleHost deepList ws =
     ([BulletedListItem [RichText ''L1'' None]
         (Some [BulletedListItem [RichText ''L2'' None]
                  (Some [BulletedListItem [RichText ''L3'' None] None,
                         BulletedListItem [RichText ''L4'' None] None])])],
      ws @ [''Nested list at depth 4 exceeds maximum depth of 3. Flattening to siblings.''])"
  by (simp add: token_examples list_walk block_creators)

lemma deepMarkdown_conversion:
  "markdownToBlocks exampleHost deepMarkdown ws =
     ([BulletedListItem [RichText ''L1'' None]
         (Some [BulletedListItem [RichText ''L2'' None]
                  (Some [BulletedListItem [RichText ''L3'' None] None,
                         BulletedListItem [RichText ''L4'' None] None])])],
      [''Nested list at depth 4 exceeds maximum depth of 3. Flattening to siblings.''])"
proof -
  have "trim deepMarkdown \<noteq> []"
    by (simp add: deepMarkdown_def newline_def trim_def isWhiteSpace_def)
  moreover have "deepMarkdown \<noteq> []" by (simp add: deepMarkdown_def)
  moreover have "lex exampleHost deepMarkdown = [deepList]"
    by (simp add: exampleHost_def exampleLex_def deepMarkdown_def newline_def)
  ultimately show ?thesis
    by (simp add: markdownToBlocks_def deepList_blocks del: processToken.simps)
qed

lemma title_conversion:
  "markdownToBlocks exampleHost ''# Title'' ws = ([Heading1 [RichText ''Title'' None]], [])"
proof -
  have "trim ''# Title'' \<noteq> []" by (simp add: trim_def isWhiteSpace_def)
  moreover have "lex exampleHost ''# Title'' = [headingToken 1 ''Title'']"
    by (simp add: exampleHost_def exampleLex_def)
  ultimately show ?thesis
    by (simp add: markdownToBlocks_def headingToken_def processHeading_def orElse_def
          block_creators)
qed

section \<open>Nested lists at the depth cap\<close>

lemma children_createListItemBlock_None: "children (createListItemBlock h ord txt None) = None"
  by (simp add: createListItemBlock_def createNumberedListItemBlock_def
        createBulletedListItemBlock_def attachChildren_def)

text \<open>The general form: at the depth cap the nested list that the scan of the sub-tokens
  retains is built at the same depth and spliced in behind the item's own block.\<close>

lemma processListItems_flatten:
  assumes plain: "\<not> task item"
    and parts: "itemParts item = (textContent, Some nestedList)"
    and cap: "MAX_NESTING_DEPTH \<le> d"
  shows "processListItems h (item # rest) ord d ws =
           (createListItemBlock h ord textContent None
              # fst (processListItems h (items nestedList) (ordered nestedList) d [])
              @ fst (processListItems h rest ord d []),
            ws @ [depthWarning d]
              @ snd (processListItems h (items nestedList) (ordered nestedList) d [])
              @ snd (processListItems h rest ord d []))"
proof -
  have deep: "\<not> d < MAX_NESTING_DEPTH" using cap by simp
  define nested where
    "nested = processListItems h (items nestedList) (ordered nestedList) d []"
  define following where "following = processListItems h rest ord d []"
  have item: "processListItem h item ord d ws =
                ((createListItemBlock h ord textContent None, fst nested),
                 ws @ [depthWarning d] @ snd nested)"
    unfolding processListItem_flatten [OF plain parts deep, of h ord ws] nested_def
    using processListItems_blocks [of h "items nestedList" "ordered nestedList" d
            "ws @ [depthWarning d]"]
          processListItems_warnings [of h "items nestedList" "ordered nestedList" d
            "ws @ [depthWarning d]"]
    by (simp only: append_assoc)
  have rest: "processListItems h rest ord d (ws @ [depthWarning d] @ snd nested) =
                (fst following, ws @ [depthWarning d] @ snd nested @ snd following)"
    using processListItems_writer [of h rest ord d,
        THEN spec, of "ws @ [depthWarning d] @ snd nested"]
    by (simp only: following_def append_assoc)
  show ?thesis
    unfolding processListItems_Cons item fst_conv snd_conv rest
    by (simp only: nested_def following_def)
qed

text \<open>On an item whose scan retains a nested list (the last sub-token of type \<open>list\<close>), the
  depth cap works as described: the block of the item has no \<open>children\<close> field, the depth
  warning is recorded, the items of the retained list are built at the same depth, their
  blocks follow the item's block immediately in the output of the parent loop, and every
  one of these items has its block among them.\<close>

lemma processListItems_flatten_retained:
  assumes "\<not> task item"
    and "tokens item = Some ts"
    and "filter (\<lambda>t. type t = ''list'') ts = l # ls"
    and "nestedList = last (l # ls)"
    and "MAX_NESTING_DEPTH \<le> d"
  shows "\<exists>textContent flattenedItems ws1 blocks ws2.
           processListItems h (items nestedList) (ordered nestedList) d (ws @ [depthWarning d])
             = (flattenedItems, ws1)
         \<and> processListItems h rest ord d ws1 = (blocks, ws2)
         \<and> processListItems h (item # rest) ord d ws
             = (createListItemBlock h ord textContent None # flattenedItems @ blocks, ws2)
         \<and> children (createListItemBlock h ord textContent None) = None
         \<and> depthWarning d \<in> set ws2
         \<and> list_all (\<lambda>i. fst (fst (processListItem h i (ordered nestedList) d []))
                              \<in> set flattenedItems) (items nestedList)"
proof -
  define textContent where "textContent = fst (itemParts item)"
  define flattenedItems where
    "flattenedItems = fst (processListItems h (items nestedList) (ordered nestedList) d [])"
  define new1 where
    "new1 = snd (processListItems h (items nestedList) (ordered nestedList) d [])"
  define blocks where "blocks = fst (processListItems h rest ord d [])"
  define new2 where "new2 = snd (processListItems h rest ord d [])"
  have parts: "itemParts item = (textContent, Some nestedList)"
    using itemParts_nested [OF assms(2,3)] assms(4)
    by (simp add: textContent_def)
  have nested: "processListItems h (items nestedList) (ordered nestedList) d
                  (ws @ [depthWarning d]) = (flattenedItems, ws @ [depthWarning d] @ new1)"
    using processListItems_writer [of h "items nestedList" "ordered nestedList" d,
        THEN spec, of "ws @ [depthWarning d]"]
    by (simp only: flattenedItems_def new1_def append_assoc)
  have following: "processListItems h rest ord d (ws @ [depthWarning d] @ new1)
                     = (blocks, ws @ [depthWarning d] @ new1 @ new2)"
    using processListItems_writer [of h rest ord d,
        THEN spec, of "ws @ [depthWarning d] @ new1"]
    by (simp only: blocks_def new2_def append_assoc)
  have whole: "processListItems h (item # rest) ord d ws
                 = (createListItemBlock h ord textContent None # flattenedItems @ blocks,
                    ws @ [depthWarning d] @ new1 @ new2)"
    using processListItems_flatten [OF assms(1) parts assms(5), of h rest ord ws]
    by (simp only: flattenedItems_def new1_def blocks_def new2_def)
  have kept: "list_all (\<lambda>i. fst (fst (processListItem h i (ordered nestedList) d []))
                              \<in> set flattenedItems) (items nestedList)"
    unfolding list_all_iff flattenedItems_def
    by (intro ballI processListItems_item_block)
  have warned: "depthWarning d \<in> set (ws @ [depthWarning d] @ new1 @ new2)" by simp
  from nested following whole kept warned children_createListItemBlock_None [of h ord textContent]
  show ?thesis by blast
qed

lemma level3Item_flattened:
  "processListItems exampleHost [level3Item] False 3 []
     = ([BulletedListItem [RichText ''L3'' None] None,
         BulletedListItem [RichText ''L4'' None] None],
        [''Nested list at depth 4 exceeds maximum depth of 3. Flattening to siblings.''])"
  by (simp add: token_examples list_walk block_creators)

text \<open>
  C5. The code does what the claim says for the nested list that the scan of the
  sub-tokens retains. But the scan keeps one list only, the last one: on the non-task item
  with the sub-tokens \<open>L3\<close>, a bulleted list with the item \<open>A\<close> and a numbered list with the
  item \<open>B\<close>, processed at depth 3, the first list is a nested list sub-token of the item,
  its item alone would yield the block of \<open>A\<close>, and yet the output holds the blocks of
  \<open>L3\<close> and \<open>B\<close> only: the content of \<open>A\<close> is dropped. The same item at depth 1 loses
  \<open>A\<close> as well, and without a warning.
\<close>

theorem processListItem_two_lists_drops_first:
  "\<not> task twoListsItem
   \<and> tokens twoListsItem
        = Some [textToken ''L3'', listToken False [itemA], listToken True [itemB]]
   \<and> type (listToken False [itemA]) = ''list''
   \<and> processListItems exampleHost (items (listToken False [itemA])) False 3 []
        = ([BulletedListItem [RichText ''A'' None] None], [])
   \<and> processListItems exampleHost [twoListsItem] False 3 []
        = ([BulletedListItem [RichText ''L3'' None] None,
            NumberedListItem [RichText ''B'' None] None],
           [''Nested list at depth 4 exceeds maximum depth of 3. Flattening to siblings.''])
   \<and> BulletedListItem [RichText ''A'' None] None
        \<notin> set (fst (processListItems exampleHost [twoListsItem] False 3 []))
   \<and> processListItems exampleHost [twoListsItem] False 1 []
        = ([BulletedListItem [RichText ''L3'' None]
              (Some [NumberedListItem [RichText ''B'' None] None])], [])"
  by (simp add: token_examples list_walk block_creators)


section \<open>Task items\<close>

text \<open>
  C6 (amended). For every task item, with or without a nested list among its sub-tokens,
  the item yields exactly one block: a \<open>to_do\<close> block, which has no \<open>children\<close> field, built
  from the \<open>text\<close> field of the item and its check mark. The sub-tokens of the item are
  not walked: no further block is emitted for the item and no warning is recorded.
\<close>

theorem processListItem_task_single_to_do:
  assumes "task item"
  shows "processListItem h item ord d ws =
           ((ToDo (createPlainTextRichText h (text_field item)) (checked item = Some True), []), ws)
         \<and> processListItems h (item # rest) ord d ws =
           (ToDo (createPlainTextRichText h (text_field item)) (checked item = Some True)
              # fst (processListItems h rest ord d ws),
            snd (processListItems h rest ord d ws))"
  using assms
  by (simp add: processListItems_Cons processListItem_task createToDoBlock_def)

theorem processListItem_task_single_to_do_witness:
  "task taskWithNested
   \<and> processListItems exampleHost [taskWithNested] False 3 []
        = ([ToDo [RichText (''Task'' @ newline @ ''- Sub'') None] False], [])"
proof -
  have t: "task taskWithNested" by (simp add: token_examples)
  have source: "text_field taskWithNested = ''Task'' @ newline @ ''- Sub''"
    by (simp add: taskWithNested_def taskItemToken_def)
  have chk: "checked taskWithNested = Some False"
    by (simp add: taskWithNested_def taskItemToken_def)
  from processListItem_task_single_to_do [OF t, of exampleHost False 3 "[]" "[]"]
  show ?thesis
    using t by (simp add: source chk newline_def block_creators)
qed

text \<open>The claim as it stands fails: the nested item \<open>Sub\<close> of a task item gets no block of
  its own and no warning is recorded, whereas the same item without the check box yields
  the block of \<open>Sub\<close> as a sibling.\<close>

theorem processListItem_task_counterexample:
  "task taskWithNested
   \<and> tokens taskWithNested = Some [textToken ''Task'', listToken False [subItem]]
   \<and> processListItems exampleHost [plainWithNested] False 3 []
        = ([BulletedListItem [RichText ''Task'' None] None,
            BulletedListItem [RichText ''Sub'' None] None],
           [''Nested list at depth 4 exceeds maximum depth of 3. Flattening to siblings.''])
   \<and> processListItems exampleHost [taskWithNested] False 3 []
        = ([ToDo [RichText (''Task'' @ newline @ ''- Sub'') None] False], [])
   \<and> BulletedListItem [RichText ''Sub'' None] None
        \<notin> set (fst (processListItems exampleHost [taskWithNested] False 3 []))"
  by (simp add: token_examples list_walk block_creators)

section \<open>Paragraphs\<close>

text \<open>Without an image among the inline tokens the loop only collects text parts.\<close>

lemma paragraphLoop_no_image:
  "list_all (\<lambda>t. type t \<noteq> ''image'') inl \<Longrightarrow>
   paragraphLoop h inl textParts blocks =
     (textParts @ map (\<lambda>t. orElse (raw t) (orElse (text_field t) [])) inl, blocks)"
  by (induction inl arbitrary: textParts) simp_all

text \<open>
  C7 (amended). For every paragraph token containing no image sub-tokens, processing yields
  exactly one paragraph block, whether the trimmed text of the paragraph is empty or not.
  With inline tokens whose joined text is not blank, the block is built from that text,
  trimmed; in every other case (no inline tokens, or a blank text) it is built from the
  \<open>text\<close> field of the token as it is, by the last line of \<open>processParagraph\<close>.
\<close>

theorem processParagraph_single_block:
  assumes "case tokens tok of None \<Rightarrow> True
           | Some inl \<Rightarrow> list_all (\<lambda>t. type t \<noteq> ''image'') inl"
  shows "processParagraph h tok =
           [Paragraph (createPlainTextRichText h
              (case tokens tok of
                 None \<Rightarrow> text_field tok
               | Some inl \<Rightarrow>
                   if trim (concat (map (\<lambda>t. orElse (raw t) (orElse (text_field t) [])) inl))
                        \<noteq> []
                   then trim (concat (map (\<lambda>t. orElse (raw t) (orElse (text_field t) [])) inl))
                   else text_field tok))]"
proof (cases "tokens tok")
  case None
  then show ?thesis
    by (simp add: processParagraph_def orElse_def createParagraphBlock_def)
next
  case (Some inl)
  define textParts where
    "textParts = map (\<lambda>t. orElse (raw t) (orElse (text_field t) [])) inl"
  from Some assms have "list_all (\<lambda>t. type t \<noteq> ''image'') inl" by simp
  from paragraphLoop_no_image [OF this, of h "[]" "[]"]
  have loop: "paragraphLoop h inl [] [] = (textParts, [])"
    by (simp only: textParts_def append_Nil)
  have fallback: "orElse (text_field tok) [] = text_field tok" by (simp add: orElse_def)
  have run: "processParagraph h tok =
               [createParagraphBlock h
                  (if trim (concat textParts) \<noteq> [] then trim (concat textParts)
                   else text_field tok)]"
  proof (cases "trim (concat textParts) = []")
    case True
    then show ?thesis
      unfolding processParagraph_def Some option.case loop prod.case Let_def fallback
      by simp
  next
    case False
    then have "textParts \<noteq> []" by (auto simp: trim_def)
    with False show ?thesis
      unfolding processParagraph_def Some option.case loop prod.case Let_def fallback
      by simp
  qed
  show ?thesis
    unfolding run Some option.case textParts_def createParagraphBlock_def ..
qed

theorem processParagraph_single_block_witness:
  "tokens helloParagraph = Some [textToken ''Hello world'']
   \<and> list_all (\<lambda>t. type t \<noteq> ''image'') [textToken ''Hello world'']
   \<and> trim ''Hello world'' = ''Hello world''
   \<and> processParagraph exampleHost helloParagraph
        = [Paragraph [RichText ''Hello world'' None]]"
proof -
  have inl: "tokens helloParagraph = Some [textToken ''Hello world'']"
    by (simp add: helloParagraph_def paragraphToken_def)
  have plain: "list_all (\<lambda>t. type t \<noteq> ''image'') [textToken ''Hello world'']"
    by (simp add: textToken_def)
  have trimmed: "trim ''Hello world'' = ''Hello world''"
    by (simp add: trim_def isWhiteSpace_def)
  have pre: "case tokens helloParagraph of None \<Rightarrow> True
             | Some inl \<Rightarrow> list_all (\<lambda>t. type t \<noteq> ''image'') inl"
    using inl plain by simp
  from processParagraph_single_block [OF pre, of exampleHost]
  have "processParagraph exampleHost helloParagraph
          = [Paragraph [RichText ''Hello world'' None]]"
    by (simp add: inl textToken_def orElse_def trimmed createPlainTextRichText_example)
  with inl plain trimmed show ?thesis by simp
qed

text \<open>The claim as it stands fails on a paragraph whose trimmed text is empty: the
  paragraph made of one no-break space has no image sub-token, and \<open>processParagraph\<close>
  returns one paragraph block holding the no-break space, not zero blocks.\<close>

theorem processParagraph_blank_counterexample:
  "tokens nbspParagraph = Some [textToken [CHR 0xA0]]
   \<and> type (textToken [CHR 0xA0]) \<noteq> ''image''
   \<and> trim (text_field nbspParagraph) = []
   \<and> trim (concat [raw (textToken [CHR 0xA0])]) = []
   \<and> processParagraph exampleHost nbspParagraph = [Paragraph [RichText [CHR 0xA0] None]]
   \<and> processParagraph exampleHost nbspParagraph \<noteq> []"
  by (simp add: nbspParagraph_def paragraphToken_def textToken_def processParagraph_def
        orElse_def trim_def isWhiteSpace_def createParagraphBlock_def
        createPlainTextRichText_example)


section \<open>Code blocks\<close>

lemma toLowerCaseUnit_plus_32:
  "toLowerCaseUnit c =
     (let n = (of_char c :: nat)
      in if (65 \<le> n \<and> n \<le> 90) \<or> (192 \<le> n \<and> n \<le> 222 \<and> n \<noteq> 215)
         then char_of (n + 32) else c)"
proof (cases c)
  case (Char b0 b1 b2 b3 b4 b5 b6 b7)
  show ?thesis
    unfolding Char toLowerCaseUnit_def Let_def
    by (cases b0; cases b1; cases b2; cases b3; cases b4; cases b5; cases b6; cases b7)
       (simp_all add: char_of_def bit_simps)
qed

lemma languageTable_truthy: "map_of languageTable key = Some v \<Longrightarrow> v \<noteq> []"
  by (auto simp: languageTable_def split: if_splits)

text \<open>
  C8 (amended). A code block holds its content text as given, in one text run. The
  language tag is put in lower case and the lower-case tag is looked up in the alias table
  (js, ts, py, rb, sh, bash, zsh, yml, md); an absent or empty tag gives \<open>plain text\<close>;
  every other tag whose lower-case form is not the name of a property the table object
  inherits resolves to its own lower-case form, not to \<open>plain text\<close>.
\<close>

theorem createCodeBlock_language:
  "rich_text (createCodeBlock code lng) = [RichText code None]
   \<and> language (createCodeBlock code None) = Str ''plain text''
   \<and> (map_of languageTable (toLowerCase l) = Some v \<longrightarrow>
        language (createCodeBlock code (Some l)) = Str v)
   \<and> (map_of languageTable (toLowerCase l) = None
        \<and> toLowerCase l \<notin> set objectPrototypeKeys \<longrightarrow>
        language (createCodeBlock code (Some l)) = Str (toLowerCase l))"
proof (intro conjI impI)
  show "rich_text (createCodeBlock code lng) = [RichText code None]"
    by (simp add: createCodeBlock_def Let_def)
  show "language (createCodeBlock code None) = Str ''plain text''"
    by (simp add: createCodeBlock_def Let_def languageMap_def languageTable_def)
next
  assume hit: "map_of languageTable (toLowerCase l) = Some v"
  from languageTable_truthy [OF this] hit
  show "language (createCodeBlock code (Some l)) = Str v"
    by (simp add: createCodeBlock_def Let_def languageMap_def)
next
  assume miss: "map_of languageTable (toLowerCase l) = None
                \<and> toLowerCase l \<notin> set objectPrototypeKeys"
  then have "toLowerCase l \<noteq> []" by (auto simp: languageTable_def)
  with miss show "language (createCodeBlock code (Some l)) = Str (toLowerCase l)"
    by (simp add: createCodeBlock_def Let_def languageMap_def)
qed

lemmas code_eval =
  createCodeBlock_def Let_def languageMap_def languageTable_def objectPrototypeKeys_def
  toLowerCase_def toLowerCaseUnit_def

theorem createCodeBlock_language_witness:
  "map_of languageTable (toLowerCase ''JS'') = Some ''javascript''
   \<and> language (createCodeBlock ''x = 1'' (Some ''JS'')) = Str ''javascript''
   \<and> map_of languageTable (toLowerCase ''Rust'') = None
   \<and> toLowerCase ''Rust'' \<notin> set objectPrototypeKeys
   \<and> language (createCodeBlock ''x = 1'' (Some ''Rust'')) = Str ''rust''
   \<and> language (createCodeBlock ''x = 1'' (Some ''ts'')) = Str ''typescript''
   \<and> language (createCodeBlock ''x = 1'' (Some ''py'')) = Str ''python''
   \<and> language (createCodeBlock ''x = 1'' (Some ''rb'')) = Str ''ruby''
   \<and> language (createCodeBlock ''x = 1'' (Some ''sh'')) = Str ''shell''
   \<and> language (createCodeBlock ''x = 1'' (Some ''bash'')) = Str ''shell''
   \<and> language (createCodeBlock ''x = 1'' (Some ''zsh'')) = Str ''shell''
   \<and> language (createCodeBlock ''x = 1'' (Some ''yml'')) = Str ''yaml''
   \<and> language (createCodeBlock ''x = 1'' (Some ''md'')) = Str ''markdown''
   \<and> language (createCodeBlock ''x = 1'' (Some [])) = Str ''plain text''"
proof -
  have js: "map_of languageTable (toLowerCase ''JS'') = Some ''javascript''"
    by (simp add: languageTable_def toLowerCase_def toLowerCaseUnit_def)
  have rust: "map_of languageTable (toLowerCase ''Rust'') = None
              \<and> toLowerCase ''Rust'' \<notin> set objectPrototypeKeys"
    by (simp add: languageTable_def objectPrototypeKeys_def toLowerCase_def toLowerCaseUnit_def)
  have lower: "toLowerCase ''Rust'' = ''rust''"
    by (simp add: toLowerCase_def toLowerCaseUnit_def)
  note general = createCodeBlock_language [of "''x = 1''" None]
  from general [of "''JS''" "''javascript''"] js
  have a: "language (createCodeBlock ''x = 1'' (Some ''JS'')) = Str ''javascript''" by blast
  from general [of "''Rust''"] rust lower
  have b: "language (createCodeBlock ''x = 1'' (Some ''Rust'')) = Str ''rust''" by simp
  have rest: "language (createCodeBlock ''x = 1'' (Some ''ts'')) = Str ''typescript''"
    "language (createCodeBlock ''x = 1'' (Some ''py'')) = Str ''python''"
    "language (createCodeBlock ''x = 1'' (Some ''rb'')) = Str ''ruby''"
    "language (createCodeBlock ''x = 1'' (Some ''sh'')) = Str ''shell''"
    "language (createCodeBlock ''x = 1'' (Some ''bash'')) = Str ''shell''"
    "language (createCodeBlock ''x = 1'' (Some ''zsh'')) = Str ''shell''"
    "language (createCodeBlock ''x = 1'' (Some ''yml'')) = Str ''yaml''"
    "language (createCodeBlock ''x = 1'' (Some ''md'')) = Str ''markdown''"
    "language (createCodeBlock ''x = 1'' (Some [])) = Str ''plain text''"
    by (simp_all add: code_eval)
  from js a rust b rest show ?thesis by simp
qed

text \<open>The claim as it stands fails on a tag outside the alias table: \<open>rust\<close> resolves to
  \<open>rust\<close>, not to \<open>plain text\<close>.\<close>

theorem createCodeBlock_language_counterexample:
  "map_of languageTable ''rust'' = None
   \<and> language (createCodeBlock ''fn main() {}'' (Some ''rust'')) = Str ''rust''
   \<and> language (createCodeBlock ''fn main() {}'' (Some ''rust'')) \<noteq> Str ''plain text''"
  by (simp add: code_eval)

text \<open>A tag whose lower-case form names an inherited property of the table object does not
  give a string at all.\<close>

lemma createCodeBlock_inherited:
  "language (createCodeBlock code (Some ''constructor'')) = Inherited ''constructor''
   \<and> language (createCodeBlock code (Some ''Constructor'')) = Inherited ''constructor''"
  by (simp add: code_eval)


section \<open>Conversion warnings\<close>

text \<open>On a text that is not blank the warnings are reset: the result does not depend on
  the warnings left by an earlier call.\<close>

lemma markdownToBlocks_resets:
  "src \<noteq> [] \<Longrightarrow> trim src \<noteq> [] \<Longrightarrow>
   markdownToBlocks h src ws = markdownToBlocks h src []"
  by (simp add: markdownToBlocks_def)

text \<open>
  C9. The claim holds for a text that is not blank. On a blank text \<open>markdownToBlocks\<close>
  returns before the reset, so the warnings of an earlier call stay: after the conversion
  of the four-level list and then of a text of three spaces, \<open>getConversionWarnings\<close>
  still returns the depth warning of the first call.
\<close>

theorem markdownToBlocks_blank_keeps_warnings:
  "markdownToBlocks h ''   '' ws = ([], ws)
   \<and> markdownToBlocks h [] ws = ([], ws)
   \<and> getConversionWarnings
        (snd (markdownToBlocks exampleHost ''   ''
                (snd (markdownToBlocks exampleHost deepMarkdown []))))
      = [''Nested list at depth 4 exceeds maximum depth of 3. Flattening to siblings.'']"
proof -
  have blank: "trim ''   '' = []" by (simp add: trim_def isWhiteSpace_def)
  then have "markdownToBlocks h ''   '' ws = ([], ws)" for h ws
    by (simp add: markdownToBlocks_def)
  moreover have "markdownToBlocks h [] ws = ([], ws)" by (simp add: markdownToBlocks_def)
  ultimately show ?thesis
    by (simp add: deepMarkdown_conversion getConversionWarnings_def)
qed

section \<open>Concrete runs of the batch engine and of the page rewrite\<close>

lemma chunks_of_250:
  "chunkBlocks (replicate 250 Divider) NOTION_BLOCK_LIMIT
     = Some [replicate 100 Divider, replicate 100 Divider, replicate 50 Divider]"
  by (simp add: chunkBlocks_def NOTION_BLOCK_LIMIT_def chunkLoop.simps slice_def)

lemma chunks_of_201:
  "chunkBlocks (replicate 201 Divider) NOTION_BLOCK_LIMIT
     = Some [replicate 100 Divider, replicate 100 Divider, replicate 1 Divider]"
  by (simp add: chunkBlocks_def NOTION_BLOCK_LIMIT_def chunkLoop.simps slice_def)

lemma chunks_of_title:
  "chunkBlocks [Heading1 [RichText ''Title'' None]] NOTION_BLOCK_LIMIT
     = Some [[Heading1 [RichText ''Title'' None]]]"
  by (simp add: chunkBlocks_def NOTION_BLOCK_LIMIT_def chunkLoop.simps slice_def)

theorem chunkBlocks_partition_witness:
  "replicate 250 Divider \<noteq> []
   \<and> chunkBlocks (replicate 250 Divider) NOTION_BLOCK_LIMIT
        = Some [replicate 100 Divider, replicate 100 Divider, replicate 50 Divider]
   \<and> length [replicate 100 Divider, replicate 100 Divider, replicate 50 Divider]
        = (length (replicate 250 Divider) + 99) div 100
   \<and> batchCount (fst (appendBlocksInBatches flakyClient ''page'' (replicate 250 Divider)
                        \<lparr>remote = 0, calls = [], conversionWarnings = []\<rparr>)) = 3"
proof -
  have ne: "replicate 250 Divider \<noteq> []" by simp
  from chunkBlocks_partition [OF ne, of flakyClient "''page''"
         "\<lparr>remote = 0, calls = [], conversionWarnings = []\<rparr>"]
  obtain chunks where
    "chunkBlocks (replicate 250 Divider) NOTION_BLOCK_LIMIT = Some chunks"
    "length chunks = (length (replicate 250 Divider) + 99) div 100"
    "batchCount (fst (appendBlocksInBatches flakyClient ''page'' (replicate 250 Divider)
                        \<lparr>remote = 0, calls = [], conversionWarnings = []\<rparr>)) = length chunks"
    by blast
  with ne show ?thesis by (simp add: chunks_of_250)
qed

theorem appendBlocksInBatches_outcomes_witness:
  "replicate 201 Divider \<noteq> []
   \<and> submitAll flakyClient ''page''
        [replicate 100 Divider, replicate 100 Divider, replicate 1 Divider]
        \<lparr>remote = 0, calls = [], conversionWarnings = []\<rparr>
      = ([Inl ''rate limited'', Inr ''ok'', Inr ''ok''],
         \<lparr>remote = 3,
          calls = [AppendCall ''page'' (replicate 100 Divider),
                   AppendCall ''page'' (replicate 100 Divider),
                   AppendCall ''page'' (replicate 1 Divider)],
          conversionWarnings = []\<rparr>)
   \<and> appendBlocksInBatches flakyClient ''page'' (replicate 201 Divider)
        \<lparr>remote = 0, calls = [], conversionWarnings = []\<rparr>
      = (\<lparr>success = False, totalBlocks = 201, batchCount = 3, successfulBatches = 2,
          results = [''ok'', ''ok''], errors = [(0, ''rate limited'')]\<rparr>,
         \<lparr>remote = 3,
          calls = [AppendCall ''page'' (replicate 100 Divider),
                   AppendCall ''page'' (replicate 100 Divider),
                   AppendCall ''page'' (replicate 1 Divider)],
          conversionWarnings = []\<rparr>)"
proof -
  have ne: "replicate 201 Divider \<noteq> []" by simp
  have run: "submitAll flakyClient ''page''
        [replicate 100 Divider, replicate 100 Divider, replicate 1 Divider]
        \<lparr>remote = 0, calls = [], conversionWarnings = []\<rparr>
      = ([Inl ''rate limited'', Inr ''ok'', Inr ''ok''],
         \<lparr>remote = 3,
          calls = [AppendCall ''page'' (replicate 100 Divider),
                   AppendCall ''page'' (replicate 100 Divider),
                   AppendCall ''page'' (replicate 1 Divider)],
          conversionWarnings = []\<rparr>)"
    by (simp add: callAppend_def flakyClient_def numeral_3_eq_3)
  from appendBlocksInBatches_outcomes [of flakyClient "''page''"
         "\<lparr>remote = 0, calls = [], conversionWarnings = []\<rparr>" "replicate 201 Divider"] ne
  obtain chunks outcomes s' where general:
    "chunkBlocks (replicate 201 Divider) NOTION_BLOCK_LIMIT = Some chunks"
    "submitAll flakyClient ''page'' chunks
       \<lparr>remote = 0, calls = [], conversionWarnings = []\<rparr> = (outcomes, s')"
    "appendBlocksInBatches flakyClient ''page'' (replicate 201 Divider)
       \<lparr>remote = 0, calls = [], conversionWarnings = []\<rparr> =
         (\<lparr>success = list_all succeeded outcomes,
           totalBlocks = length (replicate 201 Divider),
           batchCount = length chunks,
           successfulBatches = length (responses outcomes),
           results = responses outcomes,
           errors = failedChunks 0 outcomes\<rparr>, s')"
    by blast
  have chunks: "chunks = [replicate 100 Divider, replicate 100 Divider, replicate 1 Divider]"
    using general(1) by (simp add: chunks_of_201)
  have outcomes: "outcomes = [Inl ''rate limited'', Inr ''ok'', Inr ''ok'']"
    and final: "s' = \<lparr>remote = 3,
          calls = [AppendCall ''page'' (replicate 100 Divider),
                   AppendCall ''page'' (replicate 100 Divider),
                   AppendCall ''page'' (replicate 1 Divider)],
          conversionWarnings = []\<rparr>"
    using general(2) run unfolding chunks by simp_all
  show ?thesis
    using ne run general(3) unfolding chunks outcomes final by simp
qed

lemma store_listing:
  "fetchAllChildBlockIds (storeClient failing) ''page''
     \<lparr>remote = [''a'', ''b''], calls = [], conversionWarnings = []\<rparr>
   = Some (Inr [''a'', ''b''],
           \<lparr>remote = [''a'', ''b''], calls = [ListCall ''page'' None],
            conversionWarnings = []\<rparr>)"
  by (simp add: fetchAllChildBlockIds_def fetchLoop.simps callList_def storeClient_def
        List.map_filter_def)

lemma store_failing_append:
  "appendBlocksInBatches (storeClient True) ''page'' [Heading1 [RichText ''Title'' None]]
     \<lparr>remote = [''a'', ''b''], calls = [ListCall ''page'' None], conversionWarnings = []\<rparr>
   = (\<lparr>success = False, totalBlocks = 1, batchCount = 1, successfulBatches = 0,
       results = [], errors = [(0, ''append failed'')]\<rparr>,
      \<lparr>remote = [''a'', ''b''],
       calls = [ListCall ''page'' None,
                AppendCall ''page'' [Heading1 [RichText ''Title'' None]]],
       conversionWarnings = []\<rparr>)"
  by (simp add: appendBlocksInBatches_def chunks_of_title callAppend_def storeClient_def)

lemma store_append:
  "appendBlocksInBatches (storeClient False) ''page'' [Heading1 [RichText ''Title'' None]]
     \<lparr>remote = [''a'', ''b''], calls = [], conversionWarnings = []\<rparr>
   = (\<lparr>success = True, totalBlocks = 1, batchCount = 1, successfulBatches = 1,
       results = [''ok''], errors = []\<rparr>,
      \<lparr>remote = [''a'', ''b'', ''new''],
       calls = [AppendCall ''page'' [Heading1 [RichText ''Title'' None]]],
       conversionWarnings = []\<rparr>)"
  by (simp add: appendBlocksInBatches_def chunks_of_title callAppend_def storeClient_def)

lemma store_deletion:
  "deleteBlocksByIds (storeClient False) [''a'', ''b'']
     \<lparr>remote = [''a'', ''b'', ''new''],
      calls = [ListCall ''page'' None,
               AppendCall ''page'' [Heading1 [RichText ''Title'' None]]],
      conversionWarnings = []\<rparr>
   = ((2, []),
      \<lparr>remote = [''new''],
       calls = [ListCall ''page'' None,
                AppendCall ''page'' [Heading1 [RichText ''Title'' None]],
                DeleteCall ''a'', DeleteCall ''b''],
       conversionWarnings = []\<rparr>)"
  by (simp add: deleteBlocksByIds_def callDelete_def storeClient_def)

lemma store_append_after_listing:
  "appendBlocksInBatches (storeClient False) ''page'' [Heading1 [RichText ''Title'' None]]
     \<lparr>remote = [''a'', ''b''], calls = [ListCall ''page'' None], conversionWarnings = []\<rparr>
   = (\<lparr>success = True, totalBlocks = 1, batchCount = 1, successfulBatches = 1,
       results = [''ok''], errors = []\<rparr>,
      \<lparr>remote = [''a'', ''b'', ''new''],
       calls = [ListCall ''page'' None,
                AppendCall ''page'' [Heading1 [RichText ''Title'' None]]],
       conversionWarnings = []\<rparr>)"
  by (simp add: appendBlocksInBatches_def chunks_of_title callAppend_def storeClient_def)

theorem rewritePage_deletes_only_after_append_witness:
  "markdownToBlocks exampleHost ''# Title'' [] = ([Heading1 [RichText ''Title'' None]], [])
   \<and> fetchAllChildBlockIds (storeClient True) ''page''
        \<lparr>remote = [''a'', ''b''], calls = [], conversionWarnings = []\<rparr>
      = Some (Inr [''a'', ''b''],
              \<lparr>remote = [''a'', ''b''], calls = [ListCall ''page'' None],
               conversionWarnings = []\<rparr>)
   \<and> rewritePage exampleHost (storeClient True)
        \<lparr>pageId = ''page'', markdown = ''# Title'', validateBeforeDelete = None\<rparr>
        \<lparr>remote = [''a'', ''b''], calls = [], conversionWarnings = []\<rparr>
      = Some (appendFailureResult ''page''
                \<lparr>success = False, totalBlocks = 1, batchCount = 1, successfulBatches = 0,
                 results = [], errors = [(0, ''append failed'')]\<rparr>,
              \<lparr>remote = [''a'', ''b''],
               calls = [ListCall ''page'' None,
                        AppendCall ''page'' [Heading1 [RichText ''Title'' None]]],
               conversionWarnings = []\<rparr>)
   \<and> content (appendFailureResult ''page''
                \<lparr>success = False, totalBlocks = 1, batchCount = 1, successfulBatches = 0,
                 results = [], errors = [(0, ''append failed'')]\<rparr>)
      = [''Error: Failed to append new content to page page'' @ newline
         @ ''Original content has been preserved (no data lost).'' @ newline
         @ ''Successful batches: 0/1'' @ newline
         @ ''Errors: Batch 0: append failed'' @ newline
         @ ''Note: No new blocks were added.'']
   \<and> rewritePage exampleHost (storeClient False)
        \<lparr>pageId = ''page'', markdown = ''# Title'', validateBeforeDelete = None\<rparr>
        \<lparr>remote = [''a'', ''b''], calls = [], conversionWarnings = []\<rparr>
      = Some (successResult ''page''
                \<lparr>success = True, totalBlocks = 1, batchCount = 1, successfulBatches = 1,
                 results = [''ok''], errors = []\<rparr> 2 [] [],
              \<lparr>remote = [''new''],
               calls = [ListCall ''page'' None,
                        AppendCall ''page'' [Heading1 [RichText ''Title'' None]],
                        DeleteCall ''a'', DeleteCall ''b''],
               conversionWarnings = []\<rparr>)"
proof -
  define params where
    "params = \<lparr>pageId = ''page'', markdown = ''# Title'', validateBeforeDelete = None\<rparr>"
  define s where
    "s = \<lparr>remote = [''a'', ''b''], calls = ([]::api_call list),
          conversionWarnings = ([]::string list)\<rparr>"
  define s2 where
    "s2 = \<lparr>remote = [''a'', ''b''], calls = [ListCall ''page'' None],
           conversionWarnings = ([]::string list)\<rparr>"
  define s3 where
    "s3 = \<lparr>remote = [''a'', ''b''],
           calls = [ListCall ''page'' None,
                    AppendCall ''page'' [Heading1 [RichText ''Title'' None]]],
           conversionWarnings = ([]::string list)\<rparr>"
  define s3' where
    "s3' = \<lparr>remote = [''a'', ''b'', ''new''],
            calls = [ListCall ''page'' None,
                     AppendCall ''page'' [Heading1 [RichText ''Title'' None]]],
            conversionWarnings = ([]::string list)\<rparr>"
  define failedResult where
    "failedResult = \<lparr>success = False, totalBlocks = 1, batchCount = 1, successfulBatches = 0,
                     results = [], errors = [(0, ''append failed'')]\<rparr>"
  define fullResult where
    "fullResult = \<lparr>success = True, totalBlocks = 1, batchCount = 1, successfulBatches = 1,
                   results = [''ok''], errors = ([]::(nat \<times> string) list)\<rparr>"
  have conv: "markdownToBlocks exampleHost (markdown params) (conversionWarnings s)
                = ([Heading1 [RichText ''Title'' None]], [])"
    by (simp add: params_def title_conversion)
  have ne: "[Heading1 [RichText ''Title'' None]] \<noteq> []" by simp
  have fetch: "(if validateBeforeDelete params = Some False
                then Some (Inr [], s\<lparr>conversionWarnings := []\<rparr>)
                else fetchAllChildBlockIds (storeClient failing) (pageId params)
                       (s\<lparr>conversionWarnings := []\<rparr>))
               = Some (Inr [''a'', ''b''], s2)" for failing
    by (simp add: params_def s_def s2_def store_listing)
  have app: "appendBlocksInBatches (storeClient True) (pageId params)
               [Heading1 [RichText ''Title'' None]] s2 = (failedResult, s3)"
    by (simp add: params_def s2_def s3_def failedResult_def store_failing_append)
  have app': "appendBlocksInBatches (storeClient False) (pageId params)
               [Heading1 [RichText ''Title'' None]] s2 = (fullResult, s3')"
    by (simp add: params_def s2_def s3'_def fullResult_def store_append_after_listing)
  have failed: "\<not> success failedResult" by (simp add: failedResult_def)
  have ok: "success fullResult" by (simp add: fullResult_def)
  from rewritePage_deletes_only_after_append [OF conv ne fetch app] failed
  have "rewritePage exampleHost (storeClient True) params s
          = Some (appendFailureResult (pageId params) failedResult, s3)"
    by blast
  then have run: "rewritePage exampleHost (storeClient True)
        \<lparr>pageId = ''page'', markdown = ''# Title'', validateBeforeDelete = None\<rparr>
        \<lparr>remote = [''a'', ''b''], calls = [], conversionWarnings = []\<rparr>
      = Some (appendFailureResult ''page''
                \<lparr>success = False, totalBlocks = 1, batchCount = 1, successfulBatches = 0,
                 results = [], errors = [(0, ''append failed'')]\<rparr>,
              \<lparr>remote = [''a'', ''b''],
               calls = [ListCall ''page'' None,
                        AppendCall ''page'' [Heading1 [RichText ''Title'' None]]],
               conversionWarnings = []\<rparr>)"
    by (simp add: params_def s_def s3_def failedResult_def)
  from rewritePage_deletes_only_after_append [OF conv ne fetch app'] ok
  obtain res s4 where full:
    "rewritePage exampleHost (storeClient False) params s = Some (res, s4)"
    "calls s4 = calls s3' @ map DeleteCall [''a'', ''b'']"
    by blast
  have run': "rewritePage exampleHost (storeClient False) params s
      = Some (successResult ''page'' fullResult 2 [] [],
              \<lparr>remote = [''new''],
               calls = [ListCall ''page'' None,
                        AppendCall ''page'' [Heading1 [RichText ''Title'' None]],
                        DeleteCall ''a'', DeleteCall ''b''],
               conversionWarnings = []\<rparr>)"
    by (simp add: rewritePage_def params_def s_def title_conversion store_listing
          store_append_after_listing store_deletion getConversionWarnings_def fullResult_def)
  have message: "content (appendFailureResult ''page''
                \<lparr>success = False, totalBlocks = 1, batchCount = 1, successfulBatches = 0,
                 results = [], errors = [(0, ''append failed'')]\<rparr>)
      = [''Error: Failed to append new content to page page'' @ newline
         @ ''Original content has been preserved (no data lost).'' @ newline
         @ ''Successful batches: 0/1'' @ newline
         @ ''Errors: Batch 0: append failed'' @ newline
         @ ''Note: No new blocks were added.'']"
    by (simp add: appendFailureResult_def)
  from run run' full message show ?thesis
    by (simp add: title_conversion store_listing params_def s_def fullResult_def)
qed

theorem rewritePage_without_validation_only_appends_witness:
  "validateBeforeDelete
     \<lparr>pageId = ''page'', markdown = ''# Title'', validateBeforeDelete = Some False\<rparr>
     = Some False
   \<and> rewritePage exampleHost (storeClient False)
        \<lparr>pageId = ''page'', markdown = ''# Title'', validateBeforeDelete = Some False\<rparr>
        \<lparr>remote = [''a'', ''b''], calls = [], conversionWarnings = []\<rparr>
      = Some (successResult ''page''
                \<lparr>success = True, totalBlocks = 1, batchCount = 1, successfulBatches = 1,
                 results = [''ok''], errors = []\<rparr> 0 [] [],
              \<lparr>remote = [''a'', ''b'', ''new''],
               calls = [AppendCall ''page'' [Heading1 [RichText ''Title'' None]]],
               conversionWarnings = []\<rparr>)
   \<and> content (successResult ''page''
                \<lparr>success = True, totalBlocks = 1, batchCount = 1, successfulBatches = 1,
                 results = [''ok''], errors = []\<rparr> 0 [] [])
      = [''Page rewrite completed for page'' @ newline
         @ ''Added: 1 new block(s) in 1 batch(es)'' @ newline
         @ ''Deleted: 0 existing block(s)'']
   \<and> list_all isAppendCall [AppendCall ''page'' [Heading1 [RichText ''Title'' None]]]"
proof -
  define params where
    "params = \<lparr>pageId = ''page'', markdown = ''# Title'', validateBeforeDelete = Some False\<rparr>"
  define s where
    "s = \<lparr>remote = [''a'', ''b''], calls = ([]::api_call list),
          conversionWarnings = ([]::string list)\<rparr>"
  have off: "validateBeforeDelete params = Some False" by (simp add: params_def)
  have run: "rewritePage exampleHost (storeClient False) params s
      = Some (successResult ''page''
                \<lparr>success = True, totalBlocks = 1, batchCount = 1, successfulBatches = 1,
                 results = [''ok''], errors = []\<rparr> 0 [] [],
              \<lparr>remote = [''a'', ''b'', ''new''],
               calls = [AppendCall ''page'' [Heading1 [RichText ''Title'' None]]],
               conversionWarnings = []\<rparr>)"
    by (simp add: rewritePage_def params_def s_def title_conversion store_append
          getConversionWarnings_def)
  from rewritePage_without_validation_only_appends [OF off, of exampleHost "storeClient False" s]
  obtain res s' new where general:
    "rewritePage exampleHost (storeClient False) params s = Some (res, s')"
    "calls s' = calls s @ new" "list_all isAppendCall new"
    by blast
  have "new = [AppendCall ''page'' [Heading1 [RichText ''Title'' None]]]"
    using general(1,2) run by (simp add: s_def)
  with general(3)
  have only: "list_all isAppendCall [AppendCall ''page'' [Heading1 [RichText ''Title'' None]]]"
    by simp
  have message: "content (successResult ''page''
                \<lparr>success = True, totalBlocks = 1, batchCount = 1, successfulBatches = 1,
                 results = [''ok''], errors = []\<rparr> 0 [] [])
      = [''Page rewrite completed for page'' @ newline
         @ ''Added: 1 new block(s) in 1 batch(es)'' @ newline
         @ ''Deleted: 0 existing block(s)'']"
    by (simp add: successResult_def deletedLine_def)
  from off run message only show ?thesis by (simp add: params_def s_def)
qed

end
